theory Spec2Isabelle
  imports Main
begin

section \<open>Host tree\<close>

text \<open>
  Elements, groups and containers are objects with identity. An element is named by a
  number; a group and a container are named by the number that the source draws from
  the shared counter \<open>_lastId\<close> for their \<open>id\<close> (\<open>'fg' + n\<close>, \<open>'fgc' + n\<close>), so that
  comparing two references (\<open>===\<close>) is comparing the numbers.
\<close>

type_synonym elem = nat
type_synonym gid = nat
type_synonym cid = nat

text \<open>
  The node tree is consumed through \<open>parentElement\<close>, \<open>firstElementChild\<close>,
  \<open>lastElementChild\<close>, \<open>nextElementSibling\<close>, \<open>previousElementSibling\<close> and \<open>contains\<close>.
  A snapshot of it is a forest: the document tree, and the detached subtrees.
  Every loop of the source that follows one of these links is the traversal of a list
  read off the forest: the ancestors of a node (nearest first), the children of a node
  (in document order), the siblings before a node and those after it (nearest first).
\<close>

datatype dtree = Node elem "dtree list"

fun rootOf :: "dtree \<Rightarrow> elem" where
  "rootOf (Node e ks) = e"

fun kidsOf :: "dtree \<Rightarrow> dtree list" where
  "kidsOf (Node e ks) = ks"

fun subtreeT :: "elem \<Rightarrow> dtree \<Rightarrow> dtree option"
  and subtreeF :: "elem \<Rightarrow> dtree list \<Rightarrow> dtree option" where
  "subtreeT x (Node e ks) = (if e = x then Some (Node e ks) else subtreeF x ks)"
| "subtreeF x [] = None"
| "subtreeF x (t # ts) = (case subtreeT x t of Some s \<Rightarrow> Some s | None \<Rightarrow> subtreeF x ts)"

fun ancestorsT :: "elem \<Rightarrow> dtree \<Rightarrow> elem list option"
  and ancestorsF :: "elem \<Rightarrow> dtree list \<Rightarrow> elem list option" where
  "ancestorsT x (Node e ks) =
     (if e = x then Some [] else map_option (\<lambda>p. p @ [e]) (ancestorsF x ks))"
| "ancestorsF x [] = None"
| "ancestorsF x (t # ts) =
     (case ancestorsT x t of Some p \<Rightarrow> Some p | None \<Rightarrow> ancestorsF x ts)"

definition parentChain :: "dtree list \<Rightarrow> elem \<Rightarrow> elem list" where
  "parentChain d e = (case ancestorsF e d of None \<Rightarrow> [] | Some p \<Rightarrow> p)"

definition parentElement :: "dtree list \<Rightarrow> elem \<Rightarrow> elem option" where
  "parentElement d e = (case parentChain d e of [] \<Rightarrow> None | p # ps \<Rightarrow> Some p)"

definition childElements :: "dtree list \<Rightarrow> elem \<Rightarrow> elem list" where
  "childElements d e = (case subtreeF e d of None \<Rightarrow> [] | Some s \<Rightarrow> map rootOf (kidsOf s))"

definition previousSiblings :: "dtree list \<Rightarrow> elem \<Rightarrow> elem list" where
  "previousSiblings d e =
     (case parentElement d e of None \<Rightarrow> []
      | Some p \<Rightarrow> rev (takeWhile (\<lambda>x. x \<noteq> e) (childElements d p)))"

definition nextSiblings :: "dtree list \<Rightarrow> elem \<Rightarrow> elem list" where
  "nextSiblings d e =
     (case parentElement d e of None \<Rightarrow> []
      | Some p \<Rightarrow> drop 1 (dropWhile (\<lambda>x. x \<noteq> e) (childElements d p)))"

text \<open>\<open>a.contains(b)\<close>: \<open>b\<close> is \<open>a\<close> or a descendant of \<open>a\<close>; false for \<open>null\<close>.\<close>

definition containsEl :: "dtree list \<Rightarrow> elem \<Rightarrow> elem option \<Rightarrow> bool" where
  "containsEl d a b = (case b of None \<Rightarrow> False | Some x \<Rightarrow> a = x \<or> a \<in> set (parentChain d x))"

section \<open>Groups and group containers\<close>

datatype ElementVisibility = Invisible | PartiallyVisible | Visible

datatype FocusableGroupFocusLimit = Unlimited | Limited | LimitedTrapFocus

text \<open>
  The properties of a group that the engine reads. \<open>prop_onChange\<close> says whether a
  change callback is registered; its invocations are recorded, not run.
\<close>

record FocusableGroupProps =
  prop_isLimited :: "FocusableGroupFocusLimit option"
  prop_lookupVisibility :: "ElementVisibility option"
  prop_memorizeCurrent :: bool
  prop_onChange :: bool

record FocusableGroupState =
  isCurrent :: "bool option"
  isPrevious :: bool
  isNext :: bool
  isFirst :: bool
  isLast :: bool
  isVisible :: ElementVisibility
  hasFocus :: bool
  siblingHasFocus :: bool
  isLimited :: bool

text \<open>
  \<open>_visibleGroups\<close> and \<open>_prevVisibleGroups\<close> are references to dictionaries: the
  source compares the references and deletes keys in place. The container keeps its
  dictionaries in a store of its own, \<open>c_visObjs\<close>, and the two fields are addresses.
  A dictionary is the list of its entries in insertion order (the order of
  \<open>Object.keys\<close>); \<open>_groups\<close> maps an id to the group of that id and is the list of its
  keys.
\<close>

record FocusableGroupContainer =
  c_element :: elem
  c_current :: "gid option"
  c_prev :: "gid option"
  c_next :: "gid option"
  c_first :: "gid option"
  c_last :: "gid option"
  c_focused :: "gid option"
  c_unlimited :: "gid option"
  c_visibleGroups :: nat
  c_hasFullyVisibleGroup :: bool
  c_prevCurrent :: "gid option"
  c_prevPrev :: "gid option"
  c_prevNext :: "gid option"
  c_prevFirst :: "gid option"
  c_prevLast :: "gid option"
  c_prevFocused :: "gid option"
  c_prevUnlimited :: "gid option"
  c_prevVisibleGroups :: nat
  c_onChangeTimer :: bool
  c_updateVisibleTimer :: bool
  c_groups :: "gid list"
  c_visObjs :: "nat \<Rightarrow> (gid \<times> ElementVisibility) list"
  c_visFresh :: nat

definition newContainer :: "elem \<Rightarrow> FocusableGroupContainer" where
  "newContainer element =
     \<lparr> c_element = element,
       c_current = None, c_prev = None, c_next = None, c_first = None, c_last = None,
       c_focused = None, c_unlimited = None,
       c_visibleGroups = 0, c_hasFullyVisibleGroup = False,
       c_prevCurrent = None, c_prevPrev = None, c_prevNext = None, c_prevFirst = None,
       c_prevLast = None, c_prevFocused = None, c_prevUnlimited = None,
       c_prevVisibleGroups = 1,
       c_onChangeTimer = False, c_updateVisibleTimer = False,
       c_groups = [],
       c_visObjs = (\<lambda>r. []),
       c_visFresh = 2 \<rparr>"

text \<open>\<open>obj[k] = v\<close> on the key list, and \<open>delete obj[k]\<close> on a key list and on a dictionary.\<close>

definition keySet :: "gid list \<Rightarrow> gid \<Rightarrow> gid list" where
  "keySet ks k = (if k \<in> set ks then ks else ks @ [k])"

definition keyDelete :: "gid list \<Rightarrow> gid \<Rightarrow> gid list" where
  "keyDelete ks k = filter (\<lambda>x. x \<noteq> k) ks"

definition dictDelete :: "(gid \<times> 'v) list \<Rightarrow> gid \<Rightarrow> (gid \<times> 'v) list" where
  "dictDelete kvs k = filter (\<lambda>kv. fst kv \<noteq> k) kvs"

text \<open>
  \<open>_processOnChange\<close> and \<open>_updateVisible\<close> arm a timer unless it is armed; the bodies
  of the two timers are \<open>onChangeTick\<close> and \<open>updateVisibleTick\<close> below.
\<close>

definition processOnChange :: "FocusableGroupContainer \<Rightarrow> FocusableGroupContainer" where
  "processOnChange c = (if c_onChangeTimer c then c else c\<lparr>c_onChangeTimer := True\<rparr>)"

definition updateVisible :: "FocusableGroupContainer \<Rightarrow> FocusableGroupContainer" where
  "updateVisible c = (if c_updateVisibleTimer c then c else c\<lparr>c_updateVisibleTimer := True\<rparr>)"

text \<open>
  The scan of \<open>_setFirstLast\<close> over a list of elements: the group of the first element
  that has one whose id is in \<open>_groups\<close>. \<open>ah\<close> is the side table
  \<open>getAbilityHelpersOnElement(e).focusableGroup\<close>.
\<close>

fun firstMemberGroup :: "(elem \<Rightarrow> gid option) \<Rightarrow> gid list \<Rightarrow> elem list \<Rightarrow> gid option" where
  "firstMemberGroup ah gs [] = None"
| "firstMemberGroup ah gs (e # es) =
     (case ah e of
        None \<Rightarrow> firstMemberGroup ah gs es
      | Some g \<Rightarrow> if g \<in> set gs then Some g else firstMemberGroup ah gs es)"

definition setFirstLast ::
  "dtree list \<Rightarrow> (elem \<Rightarrow> gid option) \<Rightarrow> FocusableGroupContainer \<Rightarrow> FocusableGroupContainer" where
  "setFirstLast d ah c =
     processOnChange
       (c\<lparr> c_first := firstMemberGroup ah (c_groups c) (childElements d (c_element c)),
           c_last := firstMemberGroup ah (c_groups c) (rev (childElements d (c_element c))) \<rparr>)"

definition C_addGroup ::
  "dtree list \<Rightarrow> (elem \<Rightarrow> gid option) \<Rightarrow> FocusableGroupContainer \<Rightarrow> gid \<Rightarrow> FocusableGroupContainer" where
  "C_addGroup d ah c g =
     updateVisible (setFirstLast d ah (c\<lparr>c_groups := keySet (c_groups c) g\<rparr>))"

definition C_removeGroup ::
  "dtree list \<Rightarrow> (elem \<Rightarrow> gid option) \<Rightarrow> FocusableGroupContainer \<Rightarrow> gid \<Rightarrow> FocusableGroupContainer" where
  "C_removeGroup d ah c g =
     (let c1 = c\<lparr>c_groups := keyDelete (c_groups c) g\<rparr>;
          c2 = c1\<lparr>c_visObjs := (c_visObjs c1)
                  (c_visibleGroups c1 := dictDelete (c_visObjs c1 (c_visibleGroups c1)) g)\<rparr>;
          c3 = c2\<lparr>c_visObjs := (c_visObjs c2)
                  (c_prevVisibleGroups c2 := dictDelete (c_visObjs c2 (c_prevVisibleGroups c2)) g)\<rparr>
      in updateVisible (setFirstLast d ah c3))"


definition C_setUnlimitedGroup :: "FocusableGroupContainer \<Rightarrow> gid option \<Rightarrow> FocusableGroupContainer" where
  "C_setUnlimitedGroup c grp =
     (if grp \<noteq> c_unlimited c then processOnChange (c\<lparr>c_unlimited := grp\<rparr>) else c)"

text \<open>
  The scans of \<open>setCurrentGroup\<close> over the siblings of the current element: the group
  of the first element that has one (whether or not it is a member).
\<close>

fun firstGroup :: "(elem \<Rightarrow> gid option) \<Rightarrow> elem list \<Rightarrow> gid option" where
  "firstGroup ah [] = None"
| "firstGroup ah (e # es) = (case ah e of None \<Rightarrow> firstGroup ah es | Some g \<Rightarrow> Some g)"

text \<open>\<open>groupElement\<close> is \<open>group.getElement()\<close> of the group \<open>grp\<close>.\<close>

definition C_setCurrentGroup ::
  "dtree list \<Rightarrow> (elem \<Rightarrow> gid option) \<Rightarrow> FocusableGroupContainer \<Rightarrow> gid \<Rightarrow> elem
     \<Rightarrow> FocusableGroupContainer" where
  "C_setCurrentGroup d ah c grp groupElement =
     (let c1 = c\<lparr> c_current := (if grp \<in> set (c_groups c) then Some grp else None),
                  c_prev := None, c_next := None \<rparr>;
          c2 = (if c_current c1 \<noteq> None \<and> parentElement d groupElement = Some (c_element c1)
                then c1\<lparr> c_prev := firstGroup ah (previousSiblings d groupElement),
                         c_next := firstGroup ah (nextSiblings d groupElement) \<rparr>
                else c1)
      in processOnChange c2)"

text \<open>\<open>getCurrentGroup\<close> returns the container it leaves behind and the result.\<close>

definition C_getCurrentGroup :: "FocusableGroupContainer \<Rightarrow> FocusableGroupContainer \<times> gid option" where
  "C_getCurrentGroup c =
     (case c_current c of
        Some g \<Rightarrow> if g \<in> set (c_groups c) then (c, Some g) else (c\<lparr>c_current := None\<rparr>, None)
      | None \<Rightarrow> (c\<lparr>c_current := None\<rparr>, None))"

definition visibleOf :: "FocusableGroupContainer \<Rightarrow> nat \<Rightarrow> gid \<Rightarrow> ElementVisibility option" where
  "visibleOf c r g = map_of (c_visObjs c r) g"

definition limitedMode :: "FocusableGroupProps \<Rightarrow> bool" where
  "limitedMode props =
     (prop_isLimited props = Some Limited \<or> prop_isLimited props = Some LimitedTrapFocus)"

definition C_getGroupState ::
  "FocusableGroupContainer \<Rightarrow> gid \<Rightarrow> FocusableGroupProps \<Rightarrow> FocusableGroupState" where
  "C_getGroupState c grp props =
     (let isVisible0 = (case visibleOf c (c_visibleGroups c) grp of
                          None \<Rightarrow> Invisible | Some v \<Rightarrow> v);
          isCurrent0 = (case c_current c of None \<Rightarrow> None | Some cur \<Rightarrow> Some (cur = grp));
          isCurrent1 =
            (if isCurrent0 = None \<and> prop_lookupVisibility props \<noteq> Some Invisible
             then (if isVisible0 = Invisible \<or>
                      (c_hasFullyVisibleGroup c \<and> isVisible0 = PartiallyVisible)
                   then Some False else isCurrent0)
             else isCurrent0)
      in \<lparr> isCurrent = isCurrent1,
           isPrevious = (c_prev c = Some grp),
           isNext = (c_next c = Some grp),
           isFirst = (c_first c = Some grp),
           isLast = (c_last c = Some grp),
           isVisible = isVisible0,
           hasFocus = (c_focused c = Some grp),
           siblingHasFocus = (c_focused c \<noteq> None \<and> c_focused c \<noteq> Some grp),
           isLimited = (if limitedMode props then c_unlimited c \<noteq> Some grp else False) \<rparr>)"

definition C_isEmpty :: "FocusableGroupContainer \<Rightarrow> bool" where
  "C_isEmpty c = (length (c_groups c) = 0)"


subsection \<open>The change-propagation timer\<close>

text \<open>
  The body of the timer of \<open>_processOnChange\<close>. It threads the container and the array
  \<open>changed\<close> (of groups and \<open>undefined\<close>) through the comparisons, in the source's
  order. \<open>propsOf g\<close> is \<open>g.getProps()\<close>.
\<close>

type_synonym tickAcc = "FocusableGroupContainer \<times> gid option list"

definition diffFocused :: "(gid \<Rightarrow> FocusableGroupProps) \<Rightarrow> tickAcc \<Rightarrow> tickAcc" where
  "diffFocused propsOf a =
     (let c = fst a; changed = snd a in
      if c_prevFocused c \<noteq> c_focused c then
        (let changed1 = changed @ map Some (c_groups c);
             c1 = (if c_focused c = None \<and>
                      (case c_prevFocused c of
                         None \<Rightarrow> False
                       | Some pf \<Rightarrow> \<not> prop_memorizeCurrent (propsOf pf))
                   then c\<lparr>c_current := None, c_prev := None, c_next := None\<rparr>
                   else c)
         in (c1\<lparr>c_prevFocused := c_focused c1\<rparr>, changed1))
      else a)"

definition diffCurrent :: "tickAcc \<Rightarrow> tickAcc" where
  "diffCurrent a =
     (let c = fst a; changed = snd a in
      if c_prevCurrent c \<noteq> c_current c
      then (c\<lparr>c_prevCurrent := c_current c\<rparr>, changed @ [c_prevCurrent c, c_current c])
      else a)"

definition diffPrev :: "tickAcc \<Rightarrow> tickAcc" where
  "diffPrev a =
     (let c = fst a; changed = snd a in
      if c_prevPrev c \<noteq> c_prev c
      then (c\<lparr>c_prevPrev := c_prev c\<rparr>, changed @ [c_prevPrev c, c_prev c])
      else a)"

definition diffNext :: "tickAcc \<Rightarrow> tickAcc" where
  "diffNext a =
     (let c = fst a; changed = snd a in
      if c_prevNext c \<noteq> c_next c
      then (c\<lparr>c_prevNext := c_next c\<rparr>, changed @ [c_prevNext c, c_next c])
      else a)"

definition diffFirst :: "tickAcc \<Rightarrow> tickAcc" where
  "diffFirst a =
     (let c = fst a; changed = snd a in
      if c_prevFirst c \<noteq> c_first c
      then (c\<lparr>c_prevFirst := c_first c\<rparr>, changed @ [c_prevFirst c, c_first c])
      else a)"

definition diffLast :: "tickAcc \<Rightarrow> tickAcc" where
  "diffLast a =
     (let c = fst a; changed = snd a in
      if c_prevLast c \<noteq> c_last c
      then (c\<lparr>c_prevLast := c_last c\<rparr>, changed @ [c_prevLast c, c_last c])
      else a)"

definition diffUnlimited :: "tickAcc \<Rightarrow> tickAcc" where
  "diffUnlimited a =
     (let c = fst a; changed = snd a in
      if c_prevUnlimited c \<noteq> c_unlimited c
      then (c\<lparr>c_prevUnlimited := c_unlimited c\<rparr>, changed @ [c_prevUnlimited c, c_unlimited c])
      else a)"

text \<open>\<open>this._groups[id]\<close>: the group of that id, or \<open>undefined\<close>.\<close>

definition groupAt :: "FocusableGroupContainer \<Rightarrow> gid \<Rightarrow> gid option" where
  "groupAt c k = (if k \<in> set (c_groups c) then Some k else None)"

definition diffVisible :: "tickAcc \<Rightarrow> tickAcc" where
  "diffVisible a =
     (let c = fst a; changed = snd a in
      if c_visibleGroups c \<noteq> c_prevVisibleGroups c then
        (let vis = c_visObjs c (c_visibleGroups c);
             pvis = c_visObjs c (c_prevVisibleGroups c);
             differs = (\<lambda>k. map_of vis k \<noteq> map_of pvis k);
             changed1 = changed @ map (groupAt c) (filter differs (map fst vis));
             hasFully = list_ex (\<lambda>kv. snd kv = Visible) vis;
             changed2 = changed1 @ map (groupAt c) (filter differs (map fst pvis))
         in (c\<lparr>c_hasFullyVisibleGroup := hasFully,
                c_prevVisibleGroups := c_visibleGroups c\<rparr>, changed2))
      else a)"

text \<open>\<open>changed.filter(c => (c && this._groups[c.id]))\<close>\<close>

fun memberGroups :: "gid list \<Rightarrow> gid option list \<Rightarrow> gid list" where
  "memberGroups gs [] = []"
| "memberGroups gs (None # cs) = memberGroups gs cs"
| "memberGroups gs (Some g # cs) =
     (if g \<in> set gs then g # memberGroups gs cs else memberGroups gs cs)"

text \<open>
  The last loop: a group is marked in \<open>processed\<close> at its first occurrence, and its
  callback, if there is one, is invoked there. The result lists the groups whose
  callback was invoked, one entry for each invocation.
\<close>

fun fireOnChange :: "(gid \<Rightarrow> FocusableGroupProps) \<Rightarrow> gid list \<Rightarrow> gid list \<Rightarrow> gid list" where
  "fireOnChange propsOf processed [] = []"
| "fireOnChange propsOf processed (g # gs) =
     (if g \<in> set processed then fireOnChange propsOf processed gs
      else (if prop_onChange (propsOf g) then [g] else [])
           @ fireOnChange propsOf (g # processed) gs)"

definition tickDiffs :: "(gid \<Rightarrow> FocusableGroupProps) \<Rightarrow> FocusableGroupContainer \<Rightarrow> tickAcc" where
  "tickDiffs propsOf c =
     diffVisible (diffUnlimited (diffLast (diffFirst (diffNext (diffPrev (diffCurrent
       (diffFocused propsOf (c\<lparr>c_onChangeTimer := False\<rparr>, []))))))))"

definition C_onChangeTick ::
  "(gid \<Rightarrow> FocusableGroupProps) \<Rightarrow> FocusableGroupContainer \<Rightarrow> FocusableGroupContainer \<times> gid list" where
  "C_onChangeTick propsOf c =
     (let a = tickDiffs propsOf c
      in (fst a, fireOnChange propsOf [] (memberGroups (c_groups (fst a)) (snd a))))"

subsection \<open>The visibility timer\<close>

text \<open>
  The body of the timer of \<open>_updateVisible\<close>. \<open>classify\<close> is
  \<open>isElementVisibleInContainer\<close>, \<open>elementOf g\<close> is \<open>g.getElement()\<close>.
\<close>

definition C_updateVisibleTick ::
  "(elem \<Rightarrow> ElementVisibility) \<Rightarrow> (gid \<Rightarrow> elem) \<Rightarrow> FocusableGroupContainer
     \<Rightarrow> FocusableGroupContainer" where
  "C_updateVisibleTick classify elementOf c =
     (let c0 = c\<lparr>c_updateVisibleTimer := False\<rparr>;
          cur = c_visObjs c0 (c_visibleGroups c0);
          results = map (\<lambda>k. (k, classify (elementOf k))) (c_groups c0);
          visibleGroups = filter (\<lambda>kv. snd kv \<noteq> Invisible) results;
          isChanged = list_ex (\<lambda>kv. (case map_of cur (fst kv) of None \<Rightarrow> Invisible | Some v \<Rightarrow> v)
                                       \<noteq> snd kv) results
      in if isChanged
         then processOnChange
                (c0\<lparr> c_prevVisibleGroups := c_visibleGroups c0,
                     c_visibleGroups := c_visFresh c0,
                     c_visObjs := (c_visObjs c0)(c_visFresh c0 := visibleGroups),
                     c_visFresh := Suc (c_visFresh c0) \<rparr>)
         else c0)"

section \<open>The engine's state\<close>

text \<open>
  The objects live in two stores, indexed by identity. \<open>ahGroup\<close> and \<open>ahContainer\<close> are
  the side table read by \<open>getAbilityHelpersOnElement\<close> and written by
  \<open>setAbilityHelpersOnElement\<close> (fields \<open>focusableGroup\<close> and \<open>focusableGroupContainer\<close>).
  \<open>focusedGroups\<close> is the key list of the module's \<open>_focusedGroups\<close>; \<open>listening\<close> says
  whether \<open>_init\<close> has registered \<open>_onMutation\<close>.
\<close>

record FocusableGroup =
  g_element :: elem
  g_container :: "cid option"
  g_props :: FocusableGroupProps

record world =
  ahGroup :: "elem \<Rightarrow> gid option"
  ahContainer :: "elem \<Rightarrow> cid option"
  groupObjs :: "gid \<Rightarrow> FocusableGroup"
  containerObjs :: "cid \<Rightarrow> FocusableGroupContainer"
  lastId :: nat
  focusedGroups :: "gid list"
  listening :: bool

definition updContainer ::
  "world \<Rightarrow> cid \<Rightarrow> (FocusableGroupContainer \<Rightarrow> FocusableGroupContainer) \<Rightarrow> world" where
  "updContainer w k f = w\<lparr>containerObjs := (containerObjs w)(k := f (containerObjs w k))\<rparr>"

definition propsOfW :: "world \<Rightarrow> gid \<Rightarrow> FocusableGroupProps" where
  "propsOfW w g = g_props (groupObjs w g)"

definition elementOfW :: "world \<Rightarrow> gid \<Rightarrow> elem" where
  "elementOfW w g = g_element (groupObjs w g)"

definition defaultState :: FocusableGroupState where
  "defaultState =
     \<lparr> isCurrent = None, isPrevious = False, isNext = False, isFirst = False,
       isLast = False, isVisible = Invisible, hasFocus = False, siblingHasFocus = False,
       isLimited = False \<rparr>"

definition G_getState :: "world \<Rightarrow> gid \<Rightarrow> FocusableGroupState" where
  "G_getState w g =
     (case g_container (groupObjs w g) of
        Some k \<Rightarrow> C_getGroupState (containerObjs w k) g (propsOfW w g)
      | None \<Rightarrow> defaultState)"

definition G_makeCurrent :: "dtree list \<Rightarrow> world \<Rightarrow> gid \<Rightarrow> world" where
  "G_makeCurrent d w g =
     (case g_container (groupObjs w g) of
        Some k \<Rightarrow> updContainer w k (\<lambda>c. C_setCurrentGroup d (ahGroup w) c g (elementOfW w g))
      | None \<Rightarrow> w)"


definition G_setUnlimited :: "world \<Rightarrow> gid \<Rightarrow> bool \<Rightarrow> world" where
  "G_setUnlimited w g unlimited =
     (case g_container (groupObjs w g) of
        Some k \<Rightarrow>
          if limitedMode (propsOfW w g)
          then updContainer w k (\<lambda>c. C_setUnlimitedGroup c (if unlimited then Some g else None))
          else w
      | None \<Rightarrow> w)"

text \<open>
  The two timers of a container, run in the engine's state. The change timer returns
  the invocations of \<open>onChange\<close>: the group, and the state \<open>g.getState()\<close> it is given.
\<close>

definition W_onChangeTick :: "world \<Rightarrow> cid \<Rightarrow> world \<times> (gid \<times> FocusableGroupState) list" where
  "W_onChangeTick w k =
     (let r = C_onChangeTick (propsOfW w) (containerObjs w k);
          w1 = w\<lparr>containerObjs := (containerObjs w)(k := fst r)\<rparr>
      in (w1, map (\<lambda>g. (g, G_getState w1 g)) (snd r)))"

definition W_updateVisibleTick :: "(elem \<Rightarrow> ElementVisibility) \<Rightarrow> world \<Rightarrow> cid \<Rightarrow> world" where
  "W_updateVisibleTick classify w k =
     updContainer w k (C_updateVisibleTick classify (elementOfW w))"

text \<open>
  \<open>setupContainer\<close>: the container of the parent element is looked up in the side
  table and, unless \<open>remove\<close>, created when there is none (the constructor draws an id
  and registers the container on the element).
\<close>

definition G_setupContainer :: "dtree list \<Rightarrow> world \<Rightarrow> gid \<Rightarrow> bool \<Rightarrow> world" where
  "G_setupContainer d w g remove =
     (let curContainer = g_container (groupObjs w g);
          r = (case parentElement d (elementOfW w g) of
                 None \<Rightarrow> (w, None)
               | Some containerElement \<Rightarrow>
                   (case ahContainer w containerElement of
                      Some k \<Rightarrow> (w, Some k)
                    | None \<Rightarrow>
                        if remove then (w, None)
                        else (let k = Suc (lastId w)
                              in (w\<lparr> lastId := k,
                                     containerObjs := (containerObjs w)(k := newContainer containerElement),
                                     ahContainer := (ahContainer w)(containerElement := Some k) \<rparr>,
                                  Some k))));
          w1 = fst r; container = snd r
      in if curContainer \<noteq> container then
           (let w2 = (case curContainer of
                        None \<Rightarrow> w1
                      | Some k \<Rightarrow> updContainer w1 k (\<lambda>c. C_removeGroup d (ahGroup w1) c g));
                w3 = w2\<lparr>groupObjs := (groupObjs w2)(g := (groupObjs w2 g)\<lparr>g_container := container\<rparr>)\<rparr>
            in (case container of
                  None \<Rightarrow> w3
                | Some k \<Rightarrow> if remove then w3
                            else updContainer w3 k (\<lambda>c. C_addGroup d (ahGroup w3) c g)))
         else w1)"

text \<open>The constructor of \<open>FocusableGroup\<close>; it returns the new group too.\<close>

definition newGroup :: "dtree list \<Rightarrow> world \<Rightarrow> elem \<Rightarrow> FocusableGroupProps \<Rightarrow> world \<times> gid" where
  "newGroup d w element props =
     (let g = Suc (lastId w);
          w1 = w\<lparr> lastId := g,
                  groupObjs := (groupObjs w)
                    (g := \<lparr>g_element = element, g_container = None, g_props = props\<rparr>),
                  ahGroup := (ahGroup w)(element := Some g) \<rparr>
      in (G_setupContainer d w1 g False, g))"

definition G_dispose :: "dtree list \<Rightarrow> world \<Rightarrow> gid \<Rightarrow> world" where
  "G_dispose d w g =
     (let w1 = G_setupContainer d w g True
      in w1\<lparr>ahGroup := (ahGroup w1)(elementOfW w1 g := None)\<rparr>)"


section \<open>The focus engine\<close>

text \<open>
  What the engine reads from its collaborators, for each element: whether it matches
  the focusable selector, its \<open>tabIndex\<close>, the three tests of \<open>isVisible\<close>, whether
  \<open>aria-hidden\<close> and \<open>aria-disabled\<close> read \<open>true\<close> (in any letter case), whether the
  element carries a modality layer that is not active, the result of
  \<open>ModalityLayer.getLayerFor\<close> (the user id of the layer, whether it is always
  accessible, and the current layer id of its root), and the visibility classifier.
  \<open>body\<close> is the engine's \<open>_body\<close>.
\<close>

record LayerInfo =
  layer_userId :: string
  layer_isAlwaysAccessible :: bool
  root_currentLayerId :: "string option"

record host =
  dom :: "dtree list"
  body :: "elem option"
  matchesFocusable :: "elem \<Rightarrow> bool"
  tabIndex :: "elem \<Rightarrow> int"
  offsetParentNull :: "elem \<Rightarrow> bool"
  noDefaultView :: "elem \<Rightarrow> bool"
  visibilityHidden :: "elem \<Rightarrow> bool"
  ariaHiddenTrue :: "elem \<Rightarrow> bool"
  ariaDisabledTrue :: "elem \<Rightarrow> bool"
  inactiveLayer :: "elem \<Rightarrow> bool"
  getLayerFor :: "elem \<Rightarrow> LayerInfo option"
  isElementVisibleInContainer :: "elem \<Rightarrow> ElementVisibility"

definition F_isVisible :: "host \<Rightarrow> elem \<Rightarrow> bool" where
  "F_isVisible h el =
     (if offsetParentNull h el then False
      else if noDefaultView h el then False
      else if visibilityHidden h el then False
      else True)"

fun isAccessibleOn :: "host \<Rightarrow> elem list \<Rightarrow> bool" where
  "isAccessibleOn h [] = True"
| "isAccessibleOn h (e # es) =
     (if inactiveLayer h e then True
      else if ariaHiddenTrue h e then False
      else if ariaDisabledTrue h e then False
      else isAccessibleOn h es)"

definition F_isAccessible :: "host \<Rightarrow> elem \<Rightarrow> bool" where
  "F_isAccessible h el = isAccessibleOn h (el # parentChain (dom h) el)"

definition F_isFocusable :: "host \<Rightarrow> elem \<Rightarrow> bool \<Rightarrow> bool \<Rightarrow> bool" where
  "F_isFocusable h el includeProgrammaticallyFocusable noAccessibleCheck =
     (if matchesFocusable h el \<and> (includeProgrammaticallyFocusable \<or> tabIndex h el \<noteq> - 1)
      then F_isVisible h el \<and> (if noAccessibleCheck then True else F_isAccessible h el)
      else False)"

datatype filter_result = FILTER_ACCEPT | FILTER_REJECT | FILTER_SKIP

text \<open>
  \<open>_acceptElement\<close> calls \<open>_isInCurrentGroup\<close>, which calls \<open>_getGroupFirst\<close> and through
  it \<open>findFirst\<close> and \<open>_acceptElement\<close> again, this time with \<open>ignoreGroup\<close> set, where
  the chain of calls ends. The functions of this chain take the group test as their
  first argument, \<open>inGroup\<close>; the chain is closed below, once \<open>_isInCurrentGroup\<close> is
  defined. A result \<open>None\<close> is a call that does not return.
\<close>

definition acceptElement_with ::
  "(elem \<Rightarrow> bool option) \<Rightarrow> host \<Rightarrow> elem \<Rightarrow> (elem \<Rightarrow> bool) \<Rightarrow> bool \<Rightarrow> bool
     \<Rightarrow> filter_result option" where
  "acceptElement_with inGroup h element acceptCondition ignoreLayer ignoreGroup =
     (let layerInfo = getLayerFor h element;
          currentLayerId = (case layerInfo of None \<Rightarrow> None | Some li \<Rightarrow> root_currentLayerId li)
      in if ignoreLayer \<or> layerInfo = None \<or> currentLayerId = None \<or>
            currentLayerId = map_option layer_userId layerInfo \<or>
            (case layerInfo of None \<Rightarrow> False | Some li \<Rightarrow> layer_isAlwaysAccessible li)
         then (if ignoreGroup
               then Some (if acceptCondition element then FILTER_ACCEPT else FILTER_SKIP)
               else (case inGroup element of
                       None \<Rightarrow> None
                     | Some ok \<Rightarrow>
                         if \<not> ok then Some FILTER_REJECT
                         else Some (if acceptCondition element then FILTER_ACCEPT else FILTER_SKIP)))
         else Some (if layerInfo \<noteq> None then FILTER_REJECT else FILTER_SKIP))"

text \<open>
  Modelled from the spec: the tree walker adapter (\<open>createElementTreeWalker\<close> of
  \<open>Utils\<close>, which is not in the sources): a forward cursor over the elements below a
  root, in document order, driven by a filter with three answers. \<open>nextNode\<close> from the
  root returns the first accepted element; it does not enter the subtree of a rejected
  element, and it enters the subtree of a skipped one.
\<close>

fun nextNodeT :: "(elem \<Rightarrow> filter_result option) \<Rightarrow> dtree \<Rightarrow> elem option option"
  and nextNodeF :: "(elem \<Rightarrow> filter_result option) \<Rightarrow> dtree list \<Rightarrow> elem option option" where
  "nextNodeT f (Node e ks) =
     (case f e of
        None \<Rightarrow> None
      | Some FILTER_ACCEPT \<Rightarrow> Some (Some e)
      | Some FILTER_REJECT \<Rightarrow> Some None
      | Some FILTER_SKIP \<Rightarrow> nextNodeF f ks)"
| "nextNodeF f [] = Some None"
| "nextNodeF f (t # ts) =
     (case nextNodeT f t of
        None \<Rightarrow> None
      | Some (Some x) \<Rightarrow> Some (Some x)
      | Some None \<Rightarrow> nextNodeF f ts)"

definition kidsAt :: "dtree list \<Rightarrow> elem \<Rightarrow> dtree list" where
  "kidsAt d e = (case subtreeF e d of None \<Rightarrow> [] | Some s \<Rightarrow> kidsOf s)"

text \<open>
  \<open>_findElement\<close> with no current element and \<open>prev\<close> false, which is what \<open>findFirst\<close>
  and \<open>findDefault\<close> call; an element always has an owner document.
\<close>

definition findElement_with ::
  "(elem \<Rightarrow> bool option) \<Rightarrow> host \<Rightarrow> elem option \<Rightarrow> bool \<Rightarrow> bool \<Rightarrow> bool
     \<Rightarrow> (elem \<Rightarrow> bool) option \<Rightarrow> elem option option" where
  "findElement_with inGroup h container includeProgrammaticallyFocusable ignoreLayer ignoreGroup
       acceptCondition =
     (case container of
        None \<Rightarrow> Some None
      | Some root \<Rightarrow>
          (let cond = (case acceptCondition of
                         Some c \<Rightarrow> c
                       | None \<Rightarrow> (\<lambda>el. F_isFocusable h el includeProgrammaticallyFocusable False))
           in nextNodeF (\<lambda>node. acceptElement_with inGroup h node cond ignoreLayer ignoreGroup)
                (kidsAt (dom h) root)))"

definition findFirst_with ::
  "(elem \<Rightarrow> bool option) \<Rightarrow> host \<Rightarrow> elem option \<Rightarrow> bool \<Rightarrow> bool \<Rightarrow> bool
     \<Rightarrow> elem option option" where
  "findFirst_with inGroup h context includeProgrammaticallyFocusable ignoreLayer ignoreGroup =
     findElement_with inGroup h (case context of Some c \<Rightarrow> Some c | None \<Rightarrow> body h)
       includeProgrammaticallyFocusable ignoreLayer ignoreGroup None"

definition getGroupFirst_with ::
  "(elem \<Rightarrow> bool option) \<Rightarrow> host \<Rightarrow> elem \<Rightarrow> bool \<Rightarrow> elem option option" where
  "getGroupFirst_with inGroup h groupElement ignoreGroup =
     (if F_isFocusable h groupElement False False then Some (Some groupElement)
      else findFirst_with inGroup h (Some groupElement) False False ignoreGroup)"

definition findGroup :: "host \<Rightarrow> world \<Rightarrow> elem \<Rightarrow> gid option" where
  "findGroup h w element = firstGroup (ahGroup w) (element # parentChain (dom h) element)"

text \<open>
  The \<open>while\<close> loop of \<open>_isInCurrentGroup\<close>. It goes from a group to the group found
  from the parent of that group's own element, so it need not terminate in a state
  where a group is registered on an element that is not its own.
\<close>

partial_function (option) isInCurrentGroup_loop ::
  "host \<Rightarrow> world \<Rightarrow> bool \<Rightarrow> bool \<Rightarrow> gid \<Rightarrow> elem \<Rightarrow> bool option" where
  "isInCurrentGroup_loop h w unlimitedOnly isValidForLimited g groupElement =
     (if isCurrent (G_getState w g) = Some False then Some False
      else if unlimitedOnly \<and> isLimited (G_getState w g) \<and> \<not> isValidForLimited then Some False
      else (case parentElement (dom h) groupElement of
              None \<Rightarrow> Some True
            | Some parentEl \<Rightarrow>
                (case findGroup h w parentEl of
                   None \<Rightarrow> Some True
                 | Some g' \<Rightarrow>
                     isInCurrentGroup_loop h w unlimitedOnly isValidForLimited g'
                       (elementOfW w g'))))"

declare isInCurrentGroup_loop.simps [code]

definition isInCurrentGroup' :: "host \<Rightarrow> world \<Rightarrow> elem \<Rightarrow> bool \<Rightarrow> bool option" where
  "isInCurrentGroup' h w element unlimitedOnly =
     (case findGroup h w element of
        None \<Rightarrow> Some True
      | Some g \<Rightarrow>
          (case (if unlimitedOnly
                 then map_option (containsEl (dom h) element)
                        (getGroupFirst_with (\<lambda>e. None) h (elementOfW w g) True)
                 else Some False) of
             None \<Rightarrow> None
           | Some isValidForLimited \<Rightarrow>
               isInCurrentGroup_loop h w unlimitedOnly isValidForLimited g (elementOfW w g)))"

definition F_isInCurrentGroup :: "host \<Rightarrow> world \<Rightarrow> elem \<Rightarrow> bool option" where
  "F_isInCurrentGroup h w element = isInCurrentGroup' h w element False"

definition acceptElement ::
  "host \<Rightarrow> world \<Rightarrow> elem \<Rightarrow> (elem \<Rightarrow> bool) \<Rightarrow> bool \<Rightarrow> bool \<Rightarrow> filter_result option" where
  "acceptElement h w = acceptElement_with (\<lambda>e. isInCurrentGroup' h w e True) h"

definition F_findFirst ::
  "host \<Rightarrow> world \<Rightarrow> elem option \<Rightarrow> bool \<Rightarrow> bool \<Rightarrow> bool \<Rightarrow> elem option option" where
  "F_findFirst h w = findFirst_with (\<lambda>e. isInCurrentGroup' h w e True) h"


subsection \<open>Reaction to a focus change\<close>








subsection \<open>Adding and removing groups\<close>

text \<open>
  Modelled from the spec: \<open>dispatchMutationEvent\<close> (of \<open>MutationEvent\<close>, which is not in the
  sources) raises the tree-mutation signal on the element; the engine, once it
  listens, receives it in \<open>_onMutation\<close>, with the element as the target.
\<close>

definition onMutation :: "host \<Rightarrow> world \<Rightarrow> gid option \<Rightarrow> bool \<Rightarrow> world" where
  "onMutation h w g removed =
     (case g of None \<Rightarrow> w | Some g' \<Rightarrow> G_setupContainer (dom h) w g' removed)"

definition dispatchMutationEvent :: "host \<Rightarrow> world \<Rightarrow> elem \<Rightarrow> gid \<Rightarrow> bool \<Rightarrow> world" where
  "dispatchMutationEvent h w element g removed =
     (if listening w then onMutation h w (Some g) removed else w)"

datatype error = AlreadyHasFocusGroup

definition F_addGroup :: "host \<Rightarrow> world \<Rightarrow> elem \<Rightarrow> FocusableGroupProps \<Rightarrow> error + world" where
  "F_addGroup h w element props =
     (case ahGroup w element of
        Some g \<Rightarrow> Inl AlreadyHasFocusGroup
      | None \<Rightarrow>
          (let r = newGroup (dom h) w element props
           in Inr (dispatchMutationEvent h (fst r) element (snd r) False)))"

definition F_removeGroup :: "host \<Rightarrow> world \<Rightarrow> elem \<Rightarrow> world" where
  "F_removeGroup h w element =
     (case ahGroup w element of
        None \<Rightarrow> w
      | Some g \<Rightarrow> dispatchMutationEvent h (G_dispose (dom h) w g) element g True)"


section \<open>Properties, stated independently of the code\<close>

text \<open>
  The nearest element of a list (nearest first) that has a group: \<open>r\<close> is the group
  of the element at the least index that has one, and \<open>None\<close> when no element has one.
\<close>

definition nearestGroup :: "(elem \<Rightarrow> gid option) \<Rightarrow> elem list \<Rightarrow> gid option \<Rightarrow> bool" where
  "nearestGroup ah sibs r =
     (case r of
        None \<Rightarrow> (\<forall>s \<in> set sibs. ah s = None)
      | Some g \<Rightarrow> (\<exists>i \<in> {0..<length sibs}. ah (sibs ! i) = Some g \<and>
                     (\<forall>j \<in> {0..<i}. ah (sibs ! j) = None)))"

text \<open>An element owns a member group; the first and the last child that does.\<close>

definition ownsMember :: "(elem \<Rightarrow> gid option) \<Rightarrow> gid list \<Rightarrow> elem \<Rightarrow> bool" where
  "ownsMember ah gs e = (case ah e of None \<Rightarrow> False | Some g \<Rightarrow> g \<in> set gs)"

definition firstOwning :: "(elem \<Rightarrow> gid option) \<Rightarrow> gid list \<Rightarrow> elem list \<Rightarrow> gid option \<Rightarrow> bool" where
  "firstOwning ah gs kids r =
     (case r of
        None \<Rightarrow> (\<forall>e \<in> set kids. \<not> ownsMember ah gs e)
      | Some g \<Rightarrow> (\<exists>i \<in> {0..<length kids}. ah (kids ! i) = Some g \<and> g \<in> set gs \<and>
                     (\<forall>j \<in> {0..<i}. \<not> ownsMember ah gs (kids ! j))))"

definition lastOwning :: "(elem \<Rightarrow> gid option) \<Rightarrow> gid list \<Rightarrow> elem list \<Rightarrow> gid option \<Rightarrow> bool" where
  "lastOwning ah gs kids r =
     (case r of
        None \<Rightarrow> (\<forall>e \<in> set kids. \<not> ownsMember ah gs e)
      | Some g \<Rightarrow> (\<exists>i \<in> {0..<length kids}. ah (kids ! i) = Some g \<and> g \<in> set gs \<and>
                     (\<forall>j \<in> {Suc i..<length kids}. \<not> ownsMember ah gs (kids ! j))))"

definition firstLastOk ::
  "dtree list \<Rightarrow> (elem \<Rightarrow> gid option) \<Rightarrow> FocusableGroupContainer \<Rightarrow> bool" where
  "firstLastOk d ah c =
     (firstOwning ah (c_groups c) (childElements d (c_element c)) (c_first c) \<and>
      lastOwning ah (c_groups c) (childElements d (c_element c)) (c_last c))"

text \<open>
  A sequence of \<open>addGroup\<close> and \<open>removeGroup\<close> calls on a container; each call comes
  with the tree and the side table it finds.
\<close>

datatype memberOp = OpAdd gid | OpRemove gid

fun applyOp ::
  "FocusableGroupContainer \<Rightarrow> dtree list \<times> (elem \<Rightarrow> gid option) \<times> memberOp
     \<Rightarrow> FocusableGroupContainer" where
  "applyOp c (d, ah, OpAdd g) = C_addGroup d ah c g"
| "applyOp c (d, ah, OpRemove g) = C_removeGroup d ah c g"

definition applyOps ::
  "FocusableGroupContainer \<Rightarrow> (dtree list \<times> (elem \<Rightarrow> gid option) \<times> memberOp) list
     \<Rightarrow> FocusableGroupContainer" where
  "applyOps c ops = foldl applyOp c ops"

text \<open>
  What the change pass compares. \<open>focusLost\<close>: the focused pointer went to \<open>undefined\<close>
  from a group that does not memorize its current group, in which case the pass has
  reset current, previous and next before it compares them. \<open>affected\<close>: the group is
  a member, and the focused pointer changed, or a pointer that changed referenced the
  group before or references it now, or the visibility dictionary was replaced and the
  entry of the group differs.
\<close>

definition focusLost :: "(gid \<Rightarrow> FocusableGroupProps) \<Rightarrow> FocusableGroupContainer \<Rightarrow> bool" where
  "focusLost propsOf c =
     (c_prevFocused c \<noteq> c_focused c \<and> c_focused c = None \<and>
      (case c_prevFocused c of None \<Rightarrow> False | Some pf \<Rightarrow> \<not> prop_memorizeCurrent (propsOf pf)))"

definition pointerChanged :: "gid option \<Rightarrow> gid option \<Rightarrow> gid \<Rightarrow> bool" where
  "pointerChanged old new g = (old \<noteq> new \<and> (old = Some g \<or> new = Some g))"

definition affected :: "(gid \<Rightarrow> FocusableGroupProps) \<Rightarrow> FocusableGroupContainer \<Rightarrow> gid \<Rightarrow> bool" where
  "affected propsOf c g =
     (g \<in> set (c_groups c) \<and>
      (c_prevFocused c \<noteq> c_focused c
       \<or> pointerChanged (c_prevCurrent c) (if focusLost propsOf c then None else c_current c) g
       \<or> pointerChanged (c_prevPrev c) (if focusLost propsOf c then None else c_prev c) g
       \<or> pointerChanged (c_prevNext c) (if focusLost propsOf c then None else c_next c) g
       \<or> pointerChanged (c_prevFirst c) (c_first c) g
       \<or> pointerChanged (c_prevLast c) (c_last c) g
       \<or> pointerChanged (c_prevUnlimited c) (c_unlimited c) g
       \<or> (c_visibleGroups c \<noteq> c_prevVisibleGroups c \<and>
          visibleOf c (c_visibleGroups c) g \<noteq> visibleOf c (c_prevVisibleGroups c) g)))"

text \<open>
  The layer of a candidate that the user cannot reach: a current layer id is tracked,
  the id of the layer differs from it, and the layer is not always accessible.
\<close>

definition unreachableLayer :: "host \<Rightarrow> elem \<Rightarrow> bool" where
  "unreachableLayer h e =
     (case getLayerFor h e of
        None \<Rightarrow> False
      | Some li \<Rightarrow>
          (case root_currentLayerId li of
             None \<Rightarrow> False
           | Some cur \<Rightarrow> cur \<noteq> layer_userId li \<and> \<not> layer_isAlwaysAccessible li))"

definition alwaysAccessibleLayer :: "host \<Rightarrow> elem \<Rightarrow> bool" where
  "alwaysAccessibleLayer h e =
     (case getLayerFor h e of None \<Rightarrow> False | Some li \<Rightarrow> layer_isAlwaysAccessible li)"




text \<open>Two states with the same groups, side table of groups and focused chain.\<close>

definition sameGroups :: "world \<Rightarrow> world \<Rightarrow> bool" where
  "sameGroups w w' = (groupObjs w' = groupObjs w \<and> ahGroup w' = ahGroup w
                       \<and> focusedGroups w' = focusedGroups w)"

text \<open>
  Two states with the same groups and side table of groups, and in every container the
  same fields among those that \<open>getGroupState\<close> reads for \<open>isCurrent\<close>. The reaction to
  a focus change writes none of them.
\<close>

definition walkFields ::
  "FocusableGroupContainer \<Rightarrow>
     gid option \<times> nat \<times> (nat \<Rightarrow> (gid \<times> ElementVisibility) list) \<times> bool" where
  "walkFields c = (c_current c, c_visibleGroups c, c_visObjs c, c_hasFullyVisibleGroup c)"

definition sameView :: "world \<Rightarrow> world \<Rightarrow> bool" where
  "sameView w w' =
     (ahGroup w' = ahGroup w \<and> groupObjs w' = groupObjs w \<and>
      (\<forall>k. walkFields (containerObjs w' k) = walkFields (containerObjs w k)))"

text \<open>
  The elements of a forest. In a well-formed state the elements of the tree are
  distinct and a group registered on an element of the tree has that element as its
  own.
\<close>

fun elemsT :: "dtree \<Rightarrow> elem list" and elemsF :: "dtree list \<Rightarrow> elem list" where
  "elemsT (Node e ks) = e # elemsF ks"
| "elemsF [] = []"
| "elemsF (t # ts) = elemsT t @ elemsF ts"


text \<open>The elements below an element, in document order.\<close>

definition descendantsOf :: "dtree list \<Rightarrow> elem \<Rightarrow> elem list" where
  "descendantsOf d e = elemsF (kidsAt d e)"

section \<open>Example states\<close>

text \<open>
  A container element \<open>0\<close> with five children; the children \<open>1\<close>, \<open>3\<close> and \<open>5\<close> own the
  groups \<open>11\<close>, \<open>13\<close> and \<open>15\<close>, and the element \<open>9\<close> below the child \<open>2\<close> owns a nested
  group.
\<close>

definition siblingsDom :: "dtree list" where
  "siblingsDom = [Node 0 [Node 1 [], Node 2 [Node 9 []], Node 3 [], Node 4 [], Node 5 []]]"

definition siblingsAh :: "elem \<Rightarrow> gid option" where
  "siblingsAh = (\<lambda>e. None)(1 := Some 11, 3 := Some 13, 5 := Some 15, 9 := Some 19)"

definition siblingsContainer :: FocusableGroupContainer where
  "siblingsContainer = (newContainer 0)\<lparr>c_groups := [11, 13, 15]\<rparr>"

definition siblingsOps :: "(dtree list \<times> (elem \<Rightarrow> gid option) \<times> memberOp) list" where
  "siblingsOps =
     [(siblingsDom, siblingsAh, OpAdd 11), (siblingsDom, siblingsAh, OpAdd 13),
      (siblingsDom, siblingsAh, OpAdd 15), (siblingsDom, siblingsAh, OpRemove 11)]"

text \<open>A container that got two groups and made the first one current.\<close>

definition currentContainer :: FocusableGroupContainer where
  "currentContainer =
     C_setCurrentGroup siblingsDom siblingsAh
       (C_addGroup siblingsDom siblingsAh (C_addGroup siblingsDom siblingsAh (newContainer 0) 11) 13)
       11 1"

text \<open>An engine without groups, and a host where nothing is focusable or layered.\<close>

definition noProps :: FocusableGroupProps where
  "noProps = \<lparr> prop_isLimited = None, prop_lookupVisibility = None,
               prop_memorizeCurrent = False, prop_onChange = False \<rparr>"

definition emptyWorld :: world where
  "emptyWorld =
     \<lparr> ahGroup = (\<lambda>e. None), ahContainer = (\<lambda>e. None),
       groupObjs = (\<lambda>g. \<lparr>g_element = 0, g_container = None, g_props = noProps\<rparr>),
       containerObjs = (\<lambda>k. newContainer 0),
       lastId = 0, focusedGroups = [], listening = True \<rparr>"

definition plainHost :: "dtree list \<Rightarrow> host" where
  "plainHost d =
     \<lparr> dom = d, body = None, matchesFocusable = (\<lambda>e. False), tabIndex = (\<lambda>e. 0),
       offsetParentNull = (\<lambda>e. False), noDefaultView = (\<lambda>e. False),
       visibilityHidden = (\<lambda>e. False), ariaHiddenTrue = (\<lambda>e. False),
       ariaDisabledTrue = (\<lambda>e. False), inactiveLayer = (\<lambda>e. False),
       getLayerFor = (\<lambda>e. None), isElementVisibleInContainer = (\<lambda>e. Visible) \<rparr>"

definition addGroupOr :: "host \<Rightarrow> world \<Rightarrow> elem \<Rightarrow> FocusableGroupProps \<Rightarrow> world" where
  "addGroupOr h w element props =
     (case F_addGroup h w element props of Inl err \<Rightarrow> w | Inr w' \<Rightarrow> w')"

text \<open>
  The layer \<open>modal\<close> on the element \<open>1\<close> and the focusable elements \<open>2\<close> and \<open>3\<close> below
  it, while the current layer is \<open>main\<close>; the focusable element \<open>4\<close> is in no layer.
\<close>

definition modalLayer :: "bool \<Rightarrow> LayerInfo" where
  "modalLayer always =
     \<lparr> layer_userId = ''modal'', layer_isAlwaysAccessible = always,
       root_currentLayerId = Some ''main'' \<rparr>"

definition layerHost :: "bool \<Rightarrow> host" where
  "layerHost always = (plainHost [Node 0 [Node 1 [Node 2 [], Node 3 []], Node 4 []]])
     \<lparr> matchesFocusable := (\<lambda>e. e = 2 \<or> e = 3 \<or> e = 4),
       getLayerFor := (\<lambda>e. if e = 1 \<or> e = 2 \<or> e = 3 then Some (modalLayer always) else None) \<rparr>"

text \<open>
  Three groups with a change callback, added on the children \<open>1\<close>, \<open>2\<close> and \<open>3\<close> of the
  element \<open>0\<close>: the groups \<open>1\<close>, \<open>3\<close> and \<open>4\<close> of the container \<open>2\<close>. The change pass
  runs, then the group \<open>1\<close> is made current.
\<close>

definition threeHost :: host where
  "threeHost = plainHost [Node 0 [Node 1 [], Node 2 [], Node 3 []]]"

definition callbackProps :: FocusableGroupProps where
  "callbackProps = noProps\<lparr>prop_lookupVisibility := Some Invisible, prop_onChange := True\<rparr>"

definition threeGroups :: world where
  "threeGroups =
     addGroupOr threeHost
       (addGroupOr threeHost (addGroupOr threeHost emptyWorld 1 callbackProps) 2 callbackProps)
       3 callbackProps"

definition threeSettled :: world where
  "threeSettled = fst (W_onChangeTick threeGroups 2)"

definition threeCurrent :: world where
  "threeCurrent = G_makeCurrent (dom threeHost) threeSettled 1"

text \<open>
  A group on the element \<open>1\<close>, which has the focusable children \<open>2\<close> and \<open>3\<close>, next to
  the focusable element \<open>4\<close>: the group \<open>1\<close> of the container \<open>2\<close>, after the visibility
  timer has found it visible. \<open>focusAfter\<close> is the state after focus has moved to an
  element. \<open>rootWorld\<close> has a group on the root element, which has no parent.
\<close>

definition limitedProps :: FocusableGroupProps where
  "limitedProps = noProps\<lparr>prop_isLimited := Some Limited\<rparr>"

definition focusHost :: host where
  "focusHost = (plainHost [Node 0 [Node 1 [Node 2 [], Node 3 []], Node 4 []]])
     \<lparr>matchesFocusable := (\<lambda>e. e = 2 \<or> e = 3 \<or> e = 4)\<rparr>"

definition focusWorld :: "FocusableGroupProps \<Rightarrow> world" where
  "focusWorld props =
     W_updateVisibleTick (isElementVisibleInContainer focusHost)
       (addGroupOr focusHost emptyWorld 1 props) 2"


definition rootWorld :: world where
  "rootWorld = addGroupOr focusHost emptyWorld 0 limitedProps"

text \<open>
  The always-accessible layer \<open>modal\<close> on the element \<open>1\<close>, whose only focusable element
  \<open>3\<close> is two levels below it.
\<close>

definition deepLayerHost :: host where
  "deepLayerHost = (plainHost [Node 0 [Node 1 [Node 2 [Node 3 []]], Node 4 []]])
     \<lparr> matchesFocusable := (\<lambda>e. e = 3 \<or> e = 4),
       getLayerFor := (\<lambda>e. if e = 1 \<or> e = 2 \<or> e = 3 then Some (modalLayer True) else None) \<rparr>"




section \<open>Scans of element lists\<close>

lemma firstGroup_nearest: "nearestGroup ah sibs (firstGroup ah sibs)"
proof (induction sibs)
  case Nil
  show ?case by (simp add: nearestGroup_def)
next
  case (Cons s sibs)
  show ?case
  proof (cases "ah s")
    case (Some g)
    then show ?thesis by (auto simp: nearestGroup_def intro!: bexI[of _ 0])
  next
    case None
    show ?thesis
    proof (cases "firstGroup ah sibs")
      case N: None
      with Cons None show ?thesis by (simp add: nearestGroup_def)
    next
      case (Some g)
      with Cons obtain i where i: "i < length sibs" "ah (sibs ! i) = Some g"
        "\<forall>j<i. ah (sibs ! j) = None"
        by (auto simp: nearestGroup_def)
      have "\<forall>j<Suc i. ah ((s # sibs) ! j) = None"
        using i(3) None by (auto simp: nth_Cons split: nat.splits)
      with i Some None show ?thesis
        by (auto simp: nearestGroup_def intro!: bexI[of _ "Suc i"])
    qed
  qed
qed

lemma nearestGroup_unique:
  assumes "nearestGroup ah sibs r" "nearestGroup ah sibs r'"
  shows "r = r'"
proof (cases r)
  case None
  with assms show ?thesis
    by (cases r') (auto simp: nearestGroup_def)
next
  case (Some g)
  from assms(1) Some obtain i where i: "i < length sibs" "ah (sibs ! i) = Some g"
    "\<forall>j<i. ah (sibs ! j) = None" by (auto simp: nearestGroup_def)
  show ?thesis
  proof (cases r')
    case None
    with assms(2) i show ?thesis by (auto simp: nearestGroup_def)
  next
    case S: (Some g')
    from assms(2) S obtain k where k: "k < length sibs" "ah (sibs ! k) = Some g'"
      "\<forall>j<k. ah (sibs ! j) = None" by (auto simp: nearestGroup_def)
    have "i = k"
    proof (rule ccontr)
      assume "i \<noteq> k"
      then consider "i < k" | "k < i" by linarith
      then show False using i k by cases auto
    qed
    with i k Some S show ?thesis by simp
  qed
qed

lemma nearestGroup_iff: "firstGroup ah sibs = r \<longleftrightarrow> nearestGroup ah sibs r"
  using firstGroup_nearest nearestGroup_unique by metis

lemma firstGroup_None: "firstGroup ah es = None \<longleftrightarrow> (\<forall>x \<in> set es. ah x = None)"
  by (induction es) (auto split: option.splits)

lemma firstMemberGroup_firstOwning: "firstOwning ah gs kids (firstMemberGroup ah gs kids)"
proof (induction kids)
  case Nil
  show ?case by (simp add: firstOwning_def)
next
  case (Cons s kids)
  show ?case
  proof (cases "ownsMember ah gs s")
    case True
    then obtain g where "ah s = Some g" "g \<in> set gs"
      by (auto simp: ownsMember_def split: option.splits)
    then show ?thesis by (auto simp: firstOwning_def intro!: bexI[of _ 0])
  next
    case False
    then have step: "firstMemberGroup ah gs (s # kids) = firstMemberGroup ah gs kids"
      by (auto simp: ownsMember_def split: option.splits)
    show ?thesis
    proof (cases "firstMemberGroup ah gs kids")
      case None
      with Cons False step show ?thesis by (simp add: firstOwning_def)
    next
      case (Some g)
      with Cons obtain i where i: "i < length kids" "ah (kids ! i) = Some g" "g \<in> set gs"
        "\<forall>j<i. \<not> ownsMember ah gs (kids ! j)"
        by (auto simp: firstOwning_def)
      have "\<forall>j<Suc i. \<not> ownsMember ah gs ((s # kids) ! j)"
        using i(4) False by (auto simp: nth_Cons split: nat.splits)
      with i Some step show ?thesis
        by (auto simp: firstOwning_def intro!: bexI[of _ "Suc i"])
    qed
  qed
qed

lemma firstOwning_rev_lastOwning:
  assumes "firstOwning ah gs (rev kids) r"
  shows "lastOwning ah gs kids r"
proof (cases r)
  case None
  with assms show ?thesis by (simp add: firstOwning_def lastOwning_def)
next
  case (Some g)
  let ?n = "length kids"
  from assms Some obtain i where i: "i < ?n" "ah (rev kids ! i) = Some g" "g \<in> set gs"
    "\<forall>j<i. \<not> ownsMember ah gs (rev kids ! j)"
    by (auto simp: firstOwning_def)
  let ?k = "?n - Suc i"
  have k: "?k < ?n" using i(1) by simp
  have "ah (kids ! ?k) = Some g" using i(1,2) by (simp add: rev_nth)
  moreover have "\<forall>j \<in> {Suc ?k..<?n}. \<not> ownsMember ah gs (kids ! j)"
  proof
    fix j assume j: "j \<in> {Suc ?k..<?n}"
    then have lt: "?n - Suc j < i" and jn: "j < ?n" using i(1) by auto
    have "rev kids ! (?n - Suc j) = kids ! (?n - Suc (?n - Suc j))"
      using jn by (simp add: rev_nth)
    also have "?n - Suc (?n - Suc j) = j" using jn by simp
    finally show "\<not> ownsMember ah gs (kids ! j)" using i(4) lt by metis
  qed
  ultimately show ?thesis using Some k i(3) by (auto simp: lastOwning_def)
qed

lemma firstOwning_member: "firstOwning ah gs kids (Some g) \<Longrightarrow> g \<in> set gs"
  by (auto simp: firstOwning_def)

lemma lastOwning_member: "lastOwning ah gs kids (Some g) \<Longrightarrow> g \<in> set gs"
  by (auto simp: lastOwning_def)

section \<open>The container\<close>

lemma setFirstLast_ok: "firstLastOk d ah (setFirstLast d ah c)"
  by (simp add: firstLastOk_def setFirstLast_def processOnChange_def
      firstMemberGroup_firstOwning firstOwning_rev_lastOwning)

lemma updateVisible_ok: "firstLastOk d ah (updateVisible c) = firstLastOk d ah c"
  by (simp add: firstLastOk_def updateVisible_def)

lemma addGroup_ok: "firstLastOk d ah (C_addGroup d ah c g)"
  by (simp add: C_addGroup_def updateVisible_ok setFirstLast_ok)

lemma removeGroup_ok: "firstLastOk d ah (C_removeGroup d ah c g)"
  by (simp add: C_removeGroup_def Let_def updateVisible_ok setFirstLast_ok)

lemma removed_not_member: "g \<notin> set (c_groups (C_removeGroup d ah c g))"
  by (simp add: C_removeGroup_def Let_def updateVisible_def setFirstLast_def
      processOnChange_def keyDelete_def)

lemma removeGroup_fields:
  "c_current (C_removeGroup d ah c g) = c_current c"
  "c_prev (C_removeGroup d ah c g) = c_prev c"
  "c_next (C_removeGroup d ah c g) = c_next c"
  "c_focused (C_removeGroup d ah c g) = c_focused c"
  "c_unlimited (C_removeGroup d ah c g) = c_unlimited c"
  by (simp_all add: C_removeGroup_def Let_def updateVisible_def setFirstLast_def
      processOnChange_def)

text \<open>
  C1. After \<open>setCurrentGroup(g)\<close> the current pointer is \<open>g\<close> if \<open>g\<close> is a member and
  undefined otherwise. When \<open>g\<close> is a member and its element is a child of the
  container's element, previous and next are exactly the groups of the nearest sibling
  before and after that element that owns a group, undefined when there is no such
  sibling; in every other case both are undefined.
\<close>

theorem setCurrentGroup_pointers:
  "c_current (C_setCurrentGroup d ah c g ge) = (if g \<in> set (c_groups c) then Some g else None)
   \<and> (if g \<in> set (c_groups c) \<and> parentElement d ge = Some (c_element c)
      then (\<forall>r. c_prev (C_setCurrentGroup d ah c g ge) = r
                  \<longleftrightarrow> nearestGroup ah (previousSiblings d ge) r)
         \<and> (\<forall>r. c_next (C_setCurrentGroup d ah c g ge) = r
                  \<longleftrightarrow> nearestGroup ah (nextSiblings d ge) r)
      else c_prev (C_setCurrentGroup d ah c g ge) = None
         \<and> c_next (C_setCurrentGroup d ah c g ge) = None)"
  by (simp add: C_setCurrentGroup_def processOnChange_def Let_def nearestGroup_iff)

text \<open>
  The group \<open>13\<close> of the child \<open>3\<close> is made current: the previous group is \<open>11\<close>, two
  siblings before, the next one is \<open>15\<close>, two siblings after; the nested group \<open>19\<close>
  does not count.
\<close>

theorem setCurrentGroup_pointers_witness:
  "c_current (C_setCurrentGroup siblingsDom siblingsAh siblingsContainer 13 3) = Some 13
   \<and> c_prev (C_setCurrentGroup siblingsDom siblingsAh siblingsContainer 13 3) = Some 11
   \<and> c_next (C_setCurrentGroup siblingsDom siblingsAh siblingsContainer 13 3) = Some 15
   \<and> nearestGroup siblingsAh [2, 1] (Some 11) \<and> nearestGroup siblingsAh [4, 5] (Some 15)"
proof -
  have e: "13 \<in> set (c_groups siblingsContainer)"
    "parentElement siblingsDom 3 = Some (c_element siblingsContainer)"
    "previousSiblings siblingsDom 3 = [2, 1]" "nextSiblings siblingsDom 3 = [4, 5]"
    "c_prev (C_setCurrentGroup siblingsDom siblingsAh siblingsContainer 13 3) = Some 11"
    "c_next (C_setCurrentGroup siblingsDom siblingsAh siblingsContainer 13 3) = Some 15"
    by code_simp+
  from setCurrentGroup_pointers [of siblingsDom siblingsAh siblingsContainer 13 3] e
  show ?thesis by auto
qed

text \<open>
  C2, as amended. \<open>removeGroup(g)\<close> takes \<open>g\<close> out of the membership and recomputes first
  and last at once, which then reference members or are undefined. It leaves current,
  previous, next, focused and unlimited as they were, so each of them may go on
  referencing the removed group; a current pointer to the removed group is healed by
  the next \<open>getCurrentGroup\<close>, which returns null and resets the pointer.
\<close>

theorem removeGroup_pointers:
  "g \<notin> set (c_groups (C_removeGroup d ah c g))
   \<and> (\<forall>x. c_first (C_removeGroup d ah c g) = Some x \<longrightarrow> x \<in> set (c_groups (C_removeGroup d ah c g)))
   \<and> (\<forall>x. c_last (C_removeGroup d ah c g) = Some x \<longrightarrow> x \<in> set (c_groups (C_removeGroup d ah c g)))
   \<and> c_current (C_removeGroup d ah c g) = c_current c
   \<and> c_prev (C_removeGroup d ah c g) = c_prev c
   \<and> c_next (C_removeGroup d ah c g) = c_next c
   \<and> c_focused (C_removeGroup d ah c g) = c_focused c
   \<and> c_unlimited (C_removeGroup d ah c g) = c_unlimited c
   \<and> (c_current c = Some g \<longrightarrow>
        snd (C_getCurrentGroup (C_removeGroup d ah c g)) = None
        \<and> c_current (fst (C_getCurrentGroup (C_removeGroup d ah c g))) = None)"
proof -
  have a: "g \<notin> set (c_groups (C_removeGroup d ah c g))" by (rule removed_not_member)
  have b: "\<forall>x. c_first (C_removeGroup d ah c g) = Some x
             \<longrightarrow> x \<in> set (c_groups (C_removeGroup d ah c g))"
    using removeGroup_ok [of d ah c g] firstOwning_member unfolding firstLastOk_def by metis
  have b': "\<forall>x. c_last (C_removeGroup d ah c g) = Some x
             \<longrightarrow> x \<in> set (c_groups (C_removeGroup d ah c g))"
    using removeGroup_ok [of d ah c g] lastOwning_member unfolding firstLastOk_def by metis
  have h: "c_current c = Some g \<longrightarrow>
        snd (C_getCurrentGroup (C_removeGroup d ah c g)) = None
        \<and> c_current (fst (C_getCurrentGroup (C_removeGroup d ah c g))) = None"
    using a by (simp add: C_getCurrentGroup_def removeGroup_fields(1))
  from a b b' h show ?thesis by (simp add: removeGroup_fields)
qed

text \<open>
  The claim as stated fails: the group \<open>11\<close> is added, made current and removed, and
  the current pointer still references it although it is no longer a member.
\<close>

theorem removeGroup_stale_current:
  "c_current (C_removeGroup siblingsDom siblingsAh currentContainer 11) = Some 11
   \<and> 11 \<notin> set (c_groups (C_removeGroup siblingsDom siblingsAh currentContainer 11))"
  by (intro conjI; code_simp)

theorem removeGroup_pointers_witness:
  "c_current currentContainer = Some 11
   \<and> c_current (C_removeGroup siblingsDom siblingsAh currentContainer 11) = Some 11
   \<and> c_first (C_removeGroup siblingsDom siblingsAh currentContainer 11) = Some 13
   \<and> snd (C_getCurrentGroup (C_removeGroup siblingsDom siblingsAh currentContainer 11)) = None
   \<and> c_current (fst (C_getCurrentGroup (C_removeGroup siblingsDom siblingsAh currentContainer 11)))
       = None"
proof -
  have e: "c_current currentContainer = Some 11"
    "c_first (C_removeGroup siblingsDom siblingsAh currentContainer 11) = Some 13"
    by code_simp+
  from removeGroup_pointers [of 11 siblingsDom siblingsAh currentContainer] e
  show ?thesis by simp
qed

text \<open>
  C3. After a sequence of \<open>addGroup\<close> and \<open>removeGroup\<close> calls on a container (a
  sequence with at least one call on any container, or any sequence on a new
  container), first is the group of the first child of the container's element that
  owns a member group, last is the group of the last such child, and each is undefined
  when no child owns a member group; the tree and the side table are those of the last
  call. First and last are members, and neither is the group that the last call
  removed.
\<close>

theorem first_last_after_ops:
  assumes "(ops = [] \<and> c = newContainer e) \<or> (ops \<noteq> [] \<and> (\<exists>op. last ops = (d, ah, op)))"
  shows "firstLastOk d ah (applyOps c ops)
     \<and> (\<forall>g. c_first (applyOps c ops) = Some g \<longrightarrow> g \<in> set (c_groups (applyOps c ops)))
     \<and> (\<forall>g. c_last (applyOps c ops) = Some g \<longrightarrow> g \<in> set (c_groups (applyOps c ops)))
     \<and> (\<forall>g. ops \<noteq> [] \<and> last ops = (d, ah, OpRemove g) \<longrightarrow>
            c_first (applyOps c ops) \<noteq> Some g \<and> c_last (applyOps c ops) \<noteq> Some g)"
proof -
  have ok: "firstLastOk d ah (applyOps c ops)"
  proof (cases "ops = []")
    case True
    with assms show ?thesis
      by (simp add: applyOps_def firstLastOk_def newContainer_def firstOwning_def lastOwning_def
          ownsMember_def split: option.splits)
  next
    case False
    with assms obtain op where l: "last ops = (d, ah, op)" by auto
    from False have "ops = butlast ops @ [last ops]" by simp
    then have "applyOps c ops = applyOp (applyOps c (butlast ops)) (d, ah, op)"
      unfolding applyOps_def using l by (metis foldl_Cons foldl_Nil foldl_append)
    then show ?thesis by (cases op) (simp_all add: addGroup_ok removeGroup_ok)
  qed
  have m1: "\<forall>g. c_first (applyOps c ops) = Some g \<longrightarrow> g \<in> set (c_groups (applyOps c ops))"
    using ok firstOwning_member unfolding firstLastOk_def by metis
  have m2: "\<forall>g. c_last (applyOps c ops) = Some g \<longrightarrow> g \<in> set (c_groups (applyOps c ops))"
    using ok lastOwning_member unfolding firstLastOk_def by metis
  have m3: "\<forall>g. ops \<noteq> [] \<and> last ops = (d, ah, OpRemove g) \<longrightarrow>
            c_first (applyOps c ops) \<noteq> Some g \<and> c_last (applyOps c ops) \<noteq> Some g"
  proof (intro allI impI)
    fix g assume a: "ops \<noteq> [] \<and> last ops = (d, ah, OpRemove g)"
    then have "ops = butlast ops @ [(d, ah, OpRemove g)]" by (metis append_butlast_last_id)
    then have "applyOps c ops = C_removeGroup d ah (applyOps c (butlast ops)) g"
      unfolding applyOps_def by (metis applyOp.simps(2) foldl_Cons foldl_Nil foldl_append)
    then have "g \<notin> set (c_groups (applyOps c ops))" by (simp add: removed_not_member)
    with m1 m2 show "c_first (applyOps c ops) \<noteq> Some g \<and> c_last (applyOps c ops) \<noteq> Some g"
      by blast
  qed
  from ok m1 m2 m3 show ?thesis by blast
qed

text \<open>
  The groups \<open>11\<close>, \<open>13\<close> and \<open>15\<close> are added to a new container and \<open>11\<close> is removed:
  first is \<open>13\<close> and last is \<open>15\<close>.
\<close>

theorem first_last_after_ops_witness:
  "c_first (applyOps (newContainer 0) siblingsOps) = Some 13
   \<and> c_last (applyOps (newContainer 0) siblingsOps) = Some 15
   \<and> c_groups (applyOps (newContainer 0) siblingsOps) = [13, 15]
   \<and> firstLastOk siblingsDom siblingsAh (applyOps (newContainer 0) siblingsOps)
   \<and> c_first (applyOps (newContainer 0) siblingsOps) \<noteq> Some 11"
proof -
  have e: "siblingsOps \<noteq> []" "last siblingsOps = (siblingsDom, siblingsAh, OpRemove 11)"
    by (simp_all add: siblingsOps_def)
  have v: "c_first (applyOps (newContainer 0) siblingsOps) = Some 13"
    "c_last (applyOps (newContainer 0) siblingsOps) = Some 15"
    "c_groups (applyOps (newContainer 0) siblingsOps) = [13, 15]"
    by code_simp+
  from first_last_after_ops [of siblingsOps "newContainer 0" 0 siblingsDom siblingsAh] e v
  show ?thesis by auto
qed


subsection \<open>The change pass\<close>

lemma count_fireOnChange:
  "count_list (fireOnChange P processed xs) g =
     (if g \<in> set xs \<and> g \<notin> set processed \<and> prop_onChange (P g) then 1 else 0)"
  by (induction xs arbitrary: processed) auto

lemma set_memberGroups: "set (memberGroups gs cs) = {g. Some g \<in> set cs \<and> g \<in> set gs}"
  by (induction gs cs rule: memberGroups.induct) auto

lemma diffFocused_eq:
  "diffFocused P a =
     ((if focusLost P (fst a) then (fst a)\<lparr>c_current := None, c_prev := None, c_next := None\<rparr>
       else fst a)\<lparr>c_prevFocused := c_focused (fst a)\<rparr>,
      snd a @ (if c_prevFocused (fst a) \<noteq> c_focused (fst a) then map Some (c_groups (fst a))
               else []))"
  by (cases a) (auto simp: diffFocused_def focusLost_def Let_def)

lemma diffCurrent_eq:
  "diffCurrent a = ((fst a)\<lparr>c_prevCurrent := c_current (fst a)\<rparr>,
      snd a @ (if c_prevCurrent (fst a) \<noteq> c_current (fst a)
               then [c_prevCurrent (fst a), c_current (fst a)] else []))"
  by (cases a) (auto simp: diffCurrent_def Let_def)

lemma diffPrev_eq:
  "diffPrev a = ((fst a)\<lparr>c_prevPrev := c_prev (fst a)\<rparr>,
      snd a @ (if c_prevPrev (fst a) \<noteq> c_prev (fst a)
               then [c_prevPrev (fst a), c_prev (fst a)] else []))"
  by (cases a) (auto simp: diffPrev_def Let_def)

lemma diffNext_eq:
  "diffNext a = ((fst a)\<lparr>c_prevNext := c_next (fst a)\<rparr>,
      snd a @ (if c_prevNext (fst a) \<noteq> c_next (fst a)
               then [c_prevNext (fst a), c_next (fst a)] else []))"
  by (cases a) (auto simp: diffNext_def Let_def)

lemma diffFirst_eq:
  "diffFirst a = ((fst a)\<lparr>c_prevFirst := c_first (fst a)\<rparr>,
      snd a @ (if c_prevFirst (fst a) \<noteq> c_first (fst a)
               then [c_prevFirst (fst a), c_first (fst a)] else []))"
  by (cases a) (auto simp: diffFirst_def Let_def)

lemma diffLast_eq:
  "diffLast a = ((fst a)\<lparr>c_prevLast := c_last (fst a)\<rparr>,
      snd a @ (if c_prevLast (fst a) \<noteq> c_last (fst a)
               then [c_prevLast (fst a), c_last (fst a)] else []))"
  by (cases a) (auto simp: diffLast_def Let_def)

lemma diffUnlimited_eq:
  "diffUnlimited a = ((fst a)\<lparr>c_prevUnlimited := c_unlimited (fst a)\<rparr>,
      snd a @ (if c_prevUnlimited (fst a) \<noteq> c_unlimited (fst a)
               then [c_prevUnlimited (fst a), c_unlimited (fst a)] else []))"
  by (cases a) (auto simp: diffUnlimited_def Let_def)

lemma diffVisible_eq:
  "diffVisible a =
     ((if c_visibleGroups (fst a) \<noteq> c_prevVisibleGroups (fst a)
       then (fst a)\<lparr>c_hasFullyVisibleGroup :=
                       list_ex (\<lambda>kv. snd kv = Visible) (c_visObjs (fst a) (c_visibleGroups (fst a))),
                     c_prevVisibleGroups := c_visibleGroups (fst a)\<rparr>
       else fst a),
      snd a @ (if c_visibleGroups (fst a) \<noteq> c_prevVisibleGroups (fst a)
        then map (groupAt (fst a))
               (filter (\<lambda>k. visibleOf (fst a) (c_visibleGroups (fst a)) k
                             \<noteq> visibleOf (fst a) (c_prevVisibleGroups (fst a)) k)
                  (map fst (c_visObjs (fst a) (c_visibleGroups (fst a)))))
           @ map (groupAt (fst a))
               (filter (\<lambda>k. visibleOf (fst a) (c_visibleGroups (fst a)) k
                             \<noteq> visibleOf (fst a) (c_prevVisibleGroups (fst a)) k)
                  (map fst (c_visObjs (fst a) (c_prevVisibleGroups (fst a)))))
        else []))"
  by (cases a) (simp add: diffVisible_def Let_def visibleOf_def)

lemma groupAt_image: "Some g \<in> groupAt c ` ks \<longleftrightarrow> g \<in> set (c_groups c) \<and> g \<in> ks"
  by (auto simp: groupAt_def split: if_splits)

lemma visibleOf_differs_key:
  "visibleOf c r g \<noteq> visibleOf c r' g \<Longrightarrow>
     g \<in> fst ` set (c_visObjs c r) \<or> g \<in> fst ` set (c_visObjs c r')"
  unfolding visibleOf_def by (metis map_of_eq_None_iff)

lemma snd_diffFocused:
  "Some g \<in> set (snd (diffFocused P a)) \<longleftrightarrow>
     Some g \<in> set (snd a) \<or>
     (c_prevFocused (fst a) \<noteq> c_focused (fst a) \<and> g \<in> set (c_groups (fst a)))"
  by (auto simp: diffFocused_eq)

lemma snd_diffCurrent:
  "Some g \<in> set (snd (diffCurrent a)) \<longleftrightarrow>
     Some g \<in> set (snd a) \<or> pointerChanged (c_prevCurrent (fst a)) (c_current (fst a)) g"
  by (auto simp: diffCurrent_eq pointerChanged_def)

lemma snd_diffPrev:
  "Some g \<in> set (snd (diffPrev a)) \<longleftrightarrow>
     Some g \<in> set (snd a) \<or> pointerChanged (c_prevPrev (fst a)) (c_prev (fst a)) g"
  by (auto simp: diffPrev_eq pointerChanged_def)

lemma snd_diffNext:
  "Some g \<in> set (snd (diffNext a)) \<longleftrightarrow>
     Some g \<in> set (snd a) \<or> pointerChanged (c_prevNext (fst a)) (c_next (fst a)) g"
  by (auto simp: diffNext_eq pointerChanged_def)

lemma snd_diffFirst:
  "Some g \<in> set (snd (diffFirst a)) \<longleftrightarrow>
     Some g \<in> set (snd a) \<or> pointerChanged (c_prevFirst (fst a)) (c_first (fst a)) g"
  by (auto simp: diffFirst_eq pointerChanged_def)

lemma snd_diffLast:
  "Some g \<in> set (snd (diffLast a)) \<longleftrightarrow>
     Some g \<in> set (snd a) \<or> pointerChanged (c_prevLast (fst a)) (c_last (fst a)) g"
  by (auto simp: diffLast_eq pointerChanged_def)

lemma snd_diffUnlimited:
  "Some g \<in> set (snd (diffUnlimited a)) \<longleftrightarrow>
     Some g \<in> set (snd a) \<or> pointerChanged (c_prevUnlimited (fst a)) (c_unlimited (fst a)) g"
  by (auto simp: diffUnlimited_eq pointerChanged_def)

lemma snd_diffVisible:
  "Some g \<in> set (snd (diffVisible a)) \<longleftrightarrow>
     Some g \<in> set (snd a) \<or>
     (c_visibleGroups (fst a) \<noteq> c_prevVisibleGroups (fst a) \<and> g \<in> set (c_groups (fst a)) \<and>
      visibleOf (fst a) (c_visibleGroups (fst a)) g
        \<noteq> visibleOf (fst a) (c_prevVisibleGroups (fst a)) g)"
  using visibleOf_differs_key [of "fst a" "c_visibleGroups (fst a)" g "c_prevVisibleGroups (fst a)"]
  by (auto simp: diffVisible_eq groupAt_image)

lemma fst_diffs:
  "fst (diffFocused P a) =
     (if focusLost P (fst a) then (fst a)\<lparr>c_current := None, c_prev := None, c_next := None\<rparr>
      else fst a)\<lparr>c_prevFocused := c_focused (fst a)\<rparr>"
  "fst (diffCurrent a) = (fst a)\<lparr>c_prevCurrent := c_current (fst a)\<rparr>"
  "fst (diffPrev a) = (fst a)\<lparr>c_prevPrev := c_prev (fst a)\<rparr>"
  "fst (diffNext a) = (fst a)\<lparr>c_prevNext := c_next (fst a)\<rparr>"
  "fst (diffFirst a) = (fst a)\<lparr>c_prevFirst := c_first (fst a)\<rparr>"
  "fst (diffLast a) = (fst a)\<lparr>c_prevLast := c_last (fst a)\<rparr>"
  "fst (diffUnlimited a) = (fst a)\<lparr>c_prevUnlimited := c_unlimited (fst a)\<rparr>"
  by (simp_all add: diffFocused_eq diffCurrent_eq diffPrev_eq diffNext_eq diffFirst_eq
      diffLast_eq diffUnlimited_eq)

lemma tickDiffs_groups: "c_groups (fst (tickDiffs P c)) = c_groups c"
  by (simp add: tickDiffs_def fst_diffs diffVisible_eq)

lemma tickDiffs_changed:
  "g \<in> set (c_groups c) \<and> Some g \<in> set (snd (tickDiffs P c)) \<longleftrightarrow> affected P c g"
proof -
  define a0 where "a0 = (c\<lparr>c_onChangeTimer := False\<rparr>, [] :: gid option list)"
  define a1 where "a1 = diffFocused P a0"
  have fl: "focusLost P (fst a0) = focusLost P c" by (simp add: a0_def focusLost_def)
  have f1: "fst a1 = (if focusLost P c
                      then c\<lparr>c_onChangeTimer := False, c_current := None, c_prev := None,
                             c_next := None\<rparr>
                      else c\<lparr>c_onChangeTimer := False\<rparr>)\<lparr>c_prevFocused := c_focused c\<rparr>"
    unfolding a1_def fst_diffs fl by (simp add: a0_def)
  have s1: "Some g \<in> set (snd a1) \<longleftrightarrow> (c_prevFocused c \<noteq> c_focused c \<and> g \<in> set (c_groups c))"
    unfolding a1_def snd_diffFocused by (simp add: a0_def)
  have t: "tickDiffs P c =
      diffVisible (diffUnlimited (diffLast (diffFirst (diffNext (diffPrev (diffCurrent a1))))))"
    by (simp add: tickDiffs_def a1_def a0_def)
  show ?thesis
    unfolding t snd_diffVisible snd_diffUnlimited snd_diffLast snd_diffFirst snd_diffNext
      snd_diffPrev snd_diffCurrent fst_diffs s1 f1 affected_def
    by (cases "focusLost P c") (simp_all add: visibleOf_def, blast+)
qed

lemma onChangeTick_targets:
  "count_list (snd (C_onChangeTick P c)) g =
     (if affected P c g \<and> prop_onChange (P g) then 1 else 0)"
proof -
  have "g \<in> set (memberGroups (c_groups (fst (tickDiffs P c))) (snd (tickDiffs P c)))
          \<longleftrightarrow> affected P c g"
    using tickDiffs_changed [of g c P] by (simp add: set_memberGroups tickDiffs_groups) blast
  then show ?thesis
    by (simp add: C_onChangeTick_def Let_def count_fireOnChange)
qed

text \<open>
  C4, as amended. In one run of the change pass of a container, the callback of a group
  is invoked exactly once if the group is a member, has a callback and is affected (the
  focused pointer changed, or a changed pointer referenced it before or references it
  now, or its visibility entry changed), however many pointers and entries changed for
  it, and it is not invoked otherwise; a group that is not a member gets no callback.
  Each invocation passes the state of the group after the pass.
\<close>

theorem onChange_once_per_affected_group:
  assumes "W_onChangeTick w k = (w', cbs)"
  shows "count_list (map fst cbs) g =
           (if affected (propsOfW w) (containerObjs w k) g \<and> prop_onChange (propsOfW w g)
            then 1 else 0)
     \<and> (g \<notin> set (c_groups (containerObjs w k)) \<longrightarrow> g \<notin> set (map fst cbs))
     \<and> (\<forall>cb \<in> set cbs. snd cb = G_getState w' (fst cb))"
proof -
  from assms have cbs: "cbs = map (\<lambda>g. (g, G_getState w' g))
                                (snd (C_onChangeTick (propsOfW w) (containerObjs w k)))"
    by (auto simp: W_onChangeTick_def Let_def)
  then have m: "map fst cbs = snd (C_onChangeTick (propsOfW w) (containerObjs w k))"
    by (simp add: comp_def)
  have c: "count_list (map fst cbs) g =
           (if affected (propsOfW w) (containerObjs w k) g \<and> prop_onChange (propsOfW w g)
            then 1 else 0)"
    unfolding m by (rule onChangeTick_targets)
  have n: "g \<notin> set (c_groups (containerObjs w k)) \<longrightarrow> g \<notin> set (map fst cbs)"
  proof
    assume "g \<notin> set (c_groups (containerObjs w k))"
    then have "\<not> affected (propsOfW w) (containerObjs w k) g" by (simp add: affected_def)
    with c have "count_list (map fst cbs) g = 0" by simp
    then show "g \<notin> set (map fst cbs)" by (metis count_list_0_iff)
  qed
  have s: "\<forall>cb \<in> set cbs. snd cb = G_getState w' (fst cb)"
    unfolding cbs by auto
  from c n s show ?thesis by blast
qed

text \<open>
  The claim as stated fails: making the group \<open>1\<close> current changes the state of the
  member group \<open>4\<close>, whose \<open>isCurrent\<close> goes from undefined to false, and the pass invokes
  the callbacks of the groups \<open>1\<close> and \<open>3\<close> only, although the group \<open>4\<close> has one.
\<close>

theorem state_change_without_callback:
  "isCurrent (G_getState threeSettled 4) = None
   \<and> isCurrent (G_getState (fst (W_onChangeTick threeCurrent 2)) 4) = Some False
   \<and> g_container (groupObjs threeCurrent 4) = Some 2
   \<and> 4 \<in> set (c_groups (containerObjs threeCurrent 2))
   \<and> prop_onChange (propsOfW threeCurrent 4)
   \<and> map fst (snd (W_onChangeTick threeCurrent 2)) = [1, 3]"
  by (intro conjI; code_simp)

theorem onChange_once_per_affected_group_witness:
  "map fst (snd (W_onChangeTick threeCurrent 2)) = [1, 3]
   \<and> count_list (map fst (snd (W_onChangeTick threeCurrent 2))) 1 = 1
   \<and> affected (propsOfW threeCurrent) (containerObjs threeCurrent 2) 1
   \<and> count_list (map fst (snd (W_onChangeTick threeCurrent 2))) 4 = 0
   \<and> \<not> affected (propsOfW threeCurrent) (containerObjs threeCurrent 2) 4"
proof -
  have e: "map fst (snd (W_onChangeTick threeCurrent 2)) = [1, 3]"
    by code_simp
  have p: "prop_onChange (propsOfW threeCurrent 1)" "prop_onChange (propsOfW threeCurrent 4)"
    by code_simp+
  note t1 = onChange_once_per_affected_group
    [OF surjective_pairing, of threeCurrent 2 1, THEN conjunct1]
  note t4 = onChange_once_per_affected_group
    [OF surjective_pairing, of threeCurrent 2 4, THEN conjunct1]
  have a1: "affected (propsOfW threeCurrent) (containerObjs threeCurrent 2) 1"
  proof (rule ccontr)
    assume "\<not> affected (propsOfW threeCurrent) (containerObjs threeCurrent 2) 1"
    then have "count_list (map fst (snd (W_onChangeTick threeCurrent 2))) 1 = 0"
      by (simp only: t1 simp_thms if_False)
    then show False unfolding e by simp
  qed
  have a4: "\<not> affected (propsOfW threeCurrent) (containerObjs threeCurrent 2) 4"
  proof
    assume "affected (propsOfW threeCurrent) (containerObjs threeCurrent 2) 4"
    then have "count_list (map fst (snd (W_onChangeTick threeCurrent 2))) 4 = 1"
      by (simp only: t4 p simp_thms if_True)
    then show False unfolding e by simp
  qed
  show ?thesis unfolding e using a1 a4 by simp
qed

section \<open>Groups\<close>

lemma groupObjs_updContainer [simp]: "groupObjs (updContainer w k f) = groupObjs w"
  by (simp add: updContainer_def)

lemma propsOfW_updContainer [simp]: "propsOfW (updContainer w k f) = propsOfW w"
  by (simp add: propsOfW_def fun_eq_iff)

lemma containerObjs_updContainer:
  "containerObjs (updContainer w k f) j =
     (if j = k then f (containerObjs w k) else containerObjs w j)"
  by (simp add: updContainer_def)

text \<open>
  C6. For a group \<open>g\<close> owned by a container, \<open>isLimited\<close> of its state is true if and
  only if its focus-limit mode is Limited or LimitedTrapFocus and it is not the
  container's unlimited group. For a group in one of these modes, \<open>setUnlimited(true)\<close>
  makes it the unlimited group and \<open>isLimited\<close> is false at once; for a group in
  another mode, \<open>setUnlimited\<close> changes nothing and \<open>isLimited\<close> is false.
\<close>

theorem isLimited_iff:
  assumes "g_container (groupObjs w g) = Some k"
  shows "(isLimited (G_getState w g)
            \<longleftrightarrow> limitedMode (propsOfW w g) \<and> c_unlimited (containerObjs w k) \<noteq> Some g)
     \<and> (limitedMode (propsOfW w g) \<longrightarrow>
           c_unlimited (containerObjs (G_setUnlimited w g True) k) = Some g
           \<and> \<not> isLimited (G_getState (G_setUnlimited w g True) g))
     \<and> (\<not> limitedMode (propsOfW w g) \<longrightarrow>
           G_setUnlimited w g b = w \<and> \<not> isLimited (G_getState w g))"
  using assms
  by (simp add: G_getState_def C_getGroupState_def Let_def G_setUnlimited_def
      containerObjs_updContainer C_setUnlimitedGroup_def processOnChange_def)

text \<open>
  A group in Limited mode is limited until \<open>setUnlimited(true)\<close> makes it the unlimited
  group of its container.
\<close>

theorem isLimited_iff_witness:
  "g_container (groupObjs (focusWorld limitedProps) 1) = Some 2
   \<and> limitedMode (propsOfW (focusWorld limitedProps) 1)
   \<and> c_unlimited (containerObjs (focusWorld limitedProps) 2) = None
   \<and> isLimited (G_getState (focusWorld limitedProps) 1)
   \<and> \<not> isLimited (G_getState (G_setUnlimited (focusWorld limitedProps) 1 True) 1)"
proof -
  have e: "g_container (groupObjs (focusWorld limitedProps) 1) = Some 2"
    "limitedMode (propsOfW (focusWorld limitedProps) 1)"
    "c_unlimited (containerObjs (focusWorld limitedProps) 2) = None"
    by code_simp+
  from isLimited_iff [OF e(1)] e show ?thesis by simp
qed

text \<open>
  C9. The state of a group that has no container is the fixed default state, whatever
  the properties of the group.
\<close>

theorem getState_without_container:
  assumes "g_container (groupObjs w g) = None"
  shows "G_getState w g =
     \<lparr> isCurrent = None, isPrevious = False, isNext = False, isFirst = False,
       isLast = False, isVisible = Invisible, hasFocus = False, siblingHasFocus = False,
       isLimited = False \<rparr>"
  using assms by (simp add: G_getState_def defaultState_def)

text \<open>A group in Limited mode on the root element has no container and the default state.\<close>

theorem getState_without_container_witness:
  "g_container (groupObjs rootWorld 1) = None
   \<and> prop_isLimited (propsOfW rootWorld 1) = Some Limited
   \<and> G_getState rootWorld 1 =
     \<lparr> isCurrent = None, isPrevious = False, isNext = False, isFirst = False,
       isLast = False, isVisible = Invisible, hasFocus = False, siblingHasFocus = False,
       isLimited = False \<rparr>"
proof -
  have e: "g_container (groupObjs rootWorld 1) = None"
    "prop_isLimited (propsOfW rootWorld 1) = Some Limited"
    by code_simp+
  from getState_without_container [OF e(1)] e show ?thesis by simp
qed

section \<open>The engine\<close>

text \<open>
  C8. \<open>addGroup(element, props)\<close> raises an error if and only if the element already
  owns a group; \<open>removeGroup(element)\<close> on an element that owns no group returns the
  state it was given (and has no way to raise).
\<close>

theorem addGroup_error_iff:
  "((\<exists>err. F_addGroup h w element props = Inl err) \<longleftrightarrow> (\<exists>g. ahGroup w element = Some g))
   \<and> (ahGroup w element = None \<longrightarrow> F_removeGroup h w element = w)"
  by (auto simp: F_addGroup_def F_removeGroup_def Let_def split: option.splits)

text \<open>
  The element \<open>1\<close> owns a group and \<open>addGroup\<close> on it raises; the element \<open>3\<close> owns none,
  \<open>addGroup\<close> on it does not raise and \<open>removeGroup\<close> on it changes nothing.
\<close>

theorem addGroup_error_iff_witness:
  "ahGroup (focusWorld noProps) 1 = Some 1
   \<and> F_addGroup focusHost (focusWorld noProps) 1 limitedProps = Inl AlreadyHasFocusGroup
   \<and> ahGroup (focusWorld noProps) 3 = None
   \<and> (\<forall>err. F_addGroup focusHost (focusWorld noProps) 3 limitedProps \<noteq> Inl err)
   \<and> F_removeGroup focusHost (focusWorld noProps) 3 = focusWorld noProps"
proof -
  have e: "ahGroup (focusWorld noProps) 1 = Some 1" "ahGroup (focusWorld noProps) 3 = None"
    by code_simp+
  from addGroup_error_iff [of focusHost "focusWorld noProps" 1 limitedProps] e(1)
  obtain err where "F_addGroup focusHost (focusWorld noProps) 1 limitedProps = Inl err"
    by auto
  then have a: "F_addGroup focusHost (focusWorld noProps) 1 limitedProps = Inl AlreadyHasFocusGroup"
    by (cases err) simp
  from addGroup_error_iff [of focusHost "focusWorld noProps" 3 limitedProps] e(2) a e(1)
  show ?thesis by simp
qed

text \<open>
  C10. For an element such that neither it nor any of its ancestors owns a group,
  \<open>isInCurrentGroup(element)\<close> returns true.
\<close>

theorem isInCurrentGroup_without_group:
  assumes "\<forall>x \<in> set (element # parentChain (dom h) element). ahGroup w x = None"
  shows "F_isInCurrentGroup h w element = Some True"
proof -
  have "findGroup h w element = None"
    unfolding findGroup_def using assms by (simp only: firstGroup_None)
  then show ?thesis by (simp add: F_isInCurrentGroup_def isInCurrentGroup'_def)
qed

text \<open>The element \<open>4\<close> is outside the only group.\<close>

theorem isInCurrentGroup_without_group_witness:
  "parentChain (dom focusHost) 4 = [0]
   \<and> ahGroup (focusWorld limitedProps) 4 = None
   \<and> ahGroup (focusWorld limitedProps) 0 = None
   \<and> F_isInCurrentGroup focusHost (focusWorld limitedProps) 4 = Some True"
proof -
  have e: "parentChain (dom focusHost) 4 = [0]"
    "ahGroup (focusWorld limitedProps) 4 = None"
    "ahGroup (focusWorld limitedProps) 0 = None"
    by code_simp+
  then have "\<forall>x \<in> set (4 # parentChain (dom focusHost) 4). ahGroup (focusWorld limitedProps) x = None"
    by simp
  from isInCurrentGroup_without_group [OF this] e show ?thesis by simp
qed

subsection \<open>The tree walk\<close>

lemma acceptElement_unreachable:
  "\<not> ignoreLayer \<Longrightarrow> unreachableLayer h e \<Longrightarrow>
     acceptElement_with inGroup h e cond ignoreLayer ig = Some FILTER_REJECT"
  by (auto simp: acceptElement_with_def unreachableLayer_def Let_def split: option.splits)

lemma nextNodeF_all_rejected:
  "\<forall>t \<in> set ts. f (rootOf t) = Some FILTER_REJECT \<Longrightarrow> nextNodeF f ts = Some None"
proof (induction ts)
  case Nil
  show ?case by simp
next
  case (Cons t ts)
  obtain e ks where t: "t = Node e ks" by (cases t)
  with Cons show ?case by simp
qed

lemma childElements_kidsAt: "childElements d e = map rootOf (kidsAt d e)"
  by (simp add: childElements_def kidsAt_def split: option.splits)

lemma find_append_first:
  "List.find P (xs @ ys) = (case List.find P xs of Some x \<Rightarrow> Some x | None \<Rightarrow> List.find P ys)"
  by (induction xs) auto

lemma nextNode_find:
  "\<forall>e \<in> set (elemsT t). f e = Some (if P e then FILTER_ACCEPT else FILTER_SKIP)
     \<Longrightarrow> nextNodeT f t = Some (List.find P (elemsT t))"
  "\<forall>e \<in> set (elemsF ts). f e = Some (if P e then FILTER_ACCEPT else FILTER_SKIP)
     \<Longrightarrow> nextNodeF f ts = Some (List.find P (elemsF ts))"
proof (induction f t and f ts rule: nextNodeT_nextNodeF.induct)
  case (1 f e ks)
  show ?case
  proof (cases "P e")
    case True
    with "1.prems" show ?thesis by simp
  next
    case False
    with "1.prems" have fe: "f e = Some FILTER_SKIP" by simp
    from "1.IH" [OF fe] "1.prems" have "nextNodeF f ks = Some (List.find P (elemsF ks))" by simp
    with fe False show ?thesis by simp
  qed
next
  case (2 f)
  show ?case by simp
next
  case (3 f t ts)
  from "3.prems" have t: "nextNodeT f t = Some (List.find P (elemsT t))"
    using "3.IH"(1) by simp
  show ?case
  proof (cases "List.find P (elemsT t)")
    case None
    from "3.IH"(2) [OF t [unfolded None]] "3.prems"
    have "nextNodeF f ts = Some (List.find P (elemsF ts))" by simp
    with t None show ?thesis by (simp add: find_append_first)
  next
    case (Some x)
    with t show ?thesis by (simp add: find_append_first)
  qed
qed

lemma nextNodeT_all_skipped:
  assumes "\<forall>e \<in> set (elemsT t). f e = Some FILTER_SKIP"
  shows "nextNodeT f t = Some None"
  using nextNode_find(1) [where P = "\<lambda>e. False" and f = f and t = t] assms
  by (simp add: find_None_iff [THEN iffD2])

lemma nextNode_prefix:
  "elemsT t = pre @ x # rest \<Longrightarrow> \<forall>e \<in> set pre. f e = Some FILTER_SKIP
     \<Longrightarrow> f x = Some FILTER_ACCEPT \<Longrightarrow> nextNodeT f t = Some (Some x)"
  "elemsF ts = pre @ x # rest \<Longrightarrow> \<forall>e \<in> set pre. f e = Some FILTER_SKIP
     \<Longrightarrow> f x = Some FILTER_ACCEPT \<Longrightarrow> nextNodeF f ts = Some (Some x)"
proof (induction f t and f ts arbitrary: pre rest and pre rest rule: nextNodeT_nextNodeF.induct)
  case (1 f e ks)
  show ?case
  proof (cases pre)
    case Nil
    with "1.prems" show ?thesis by simp
  next
    case (Cons p pre')
    with "1.prems" have fe: "f e = Some FILTER_SKIP" and k: "elemsF ks = pre' @ x # rest"
      and s: "\<forall>e \<in> set pre'. f e = Some FILTER_SKIP" by simp_all
    from "1.IH" [OF fe refl k s "1.prems"(3)] fe show ?thesis by simp
  qed
next
  case (2 f)
  then show ?case by simp
next
  case (3 f t ts)
  from "3.prems"(1) have "elemsT t @ elemsF ts = pre @ x # rest" by simp
  then obtain vs where
    "(elemsT t = pre @ vs \<and> vs @ elemsF ts = x # rest)
     \<or> (elemsT t @ vs = pre \<and> elemsF ts = vs @ x # rest)"
    by (auto simp: append_eq_append_conv2)
  then have "(\<exists>us. elemsT t = pre @ x # us)
     \<or> (\<exists>us. elemsT t @ us = pre \<and> elemsF ts = us @ x # rest)"
    by (cases vs) auto
  then consider us where "elemsT t = pre @ x # us"
    | us where "elemsT t @ us = pre" "elemsF ts = us @ x # rest"
    by blast
  then show ?case
  proof cases
    case 1
    from "3.IH"(1) [OF 1 "3.prems"(2,3)] show ?thesis by simp
  next
    case 2
    from 2(1) "3.prems"(2) have "\<forall>e \<in> set (elemsT t). f e = Some FILTER_SKIP"
      and u: "\<forall>e \<in> set us. f e = Some FILTER_SKIP" by auto
    then have t: "nextNodeT f t = Some None" by (simp add: nextNodeT_all_skipped)
    from "3.IH"(2) [OF t refl 2(2) u "3.prems"(3)] t show ?thesis by simp
  qed
qed

lemma acceptElement_accessible:
  assumes "alwaysAccessibleLayer h e" "ig \<or> inGroup e = Some True"
  shows "acceptElement_with inGroup h e cond False ig
           = Some (if cond e then FILTER_ACCEPT else FILTER_SKIP)"
  using assms
  by (auto simp: acceptElement_with_def alwaysAccessibleLayer_def Let_def split: option.splits)

lemma findFirst_accessible:
  assumes "\<forall>e \<in> set (descendantsOf (dom h) ctx).
             alwaysAccessibleLayer h e \<and> (ig \<or> isInCurrentGroup' h w e True = Some True)"
  shows "F_findFirst h w (Some ctx) ipf False ig =
           Some (List.find (\<lambda>e. F_isFocusable h e ipf False) (descendantsOf (dom h) ctx))"
proof -
  have "\<forall>e \<in> set (elemsF (kidsAt (dom h) ctx)).
          acceptElement_with (\<lambda>e. isInCurrentGroup' h w e True) h e
            (\<lambda>el. F_isFocusable h el ipf False) False ig
          = Some (if F_isFocusable h e ipf False then FILTER_ACCEPT else FILTER_SKIP)"
    using assms by (simp add: descendantsOf_def acceptElement_accessible)
  from nextNode_find(2) [OF this] show ?thesis
    by (simp add: F_findFirst_def findFirst_with_def findElement_with_def descendantsOf_def)
qed

lemma findFirst_prefix:
  assumes "descendantsOf (dom h) ctx = pre @ x # rest"
    and "\<forall>e \<in> set (pre @ [x]).
           alwaysAccessibleLayer h e \<and> (ig \<or> isInCurrentGroup' h w e True = Some True)"
    and "\<forall>e \<in> set pre. \<not> F_isFocusable h e ipf False"
    and "F_isFocusable h x ipf False"
  shows "F_findFirst h w (Some ctx) ipf False ig = Some (Some x)"
proof -
  let ?f = "\<lambda>e. acceptElement_with (\<lambda>e. isInCurrentGroup' h w e True) h e
            (\<lambda>el. F_isFocusable h el ipf False) False ig"
  have p: "\<forall>e \<in> set pre. ?f e = Some FILTER_SKIP"
    using assms(2,3) by (simp add: acceptElement_accessible)
  have a: "?f x = Some FILTER_ACCEPT"
    using assms(2,4) by (simp add: acceptElement_accessible)
  from assms(1) have "elemsF (kidsAt (dom h) ctx) = pre @ x # rest"
    by (simp add: descendantsOf_def)
  from nextNode_prefix(2) [OF this p a] show ?thesis
    by (simp add: F_findFirst_def findFirst_with_def findElement_with_def)
qed

text \<open>
  C5, as amended. When layering is not ignored, a candidate whose layer the user cannot
  reach (a current layer id is tracked, the layer's id differs from it and the layer is
  not always accessible) has its subtree rejected; so \<open>findFirst\<close> on a context whose
  children are all in such a layer returns null, whatever is focusable below. An
  always-accessible layer does not block the search: \<open>findFirst\<close> returns the first
  focusable element below the context in document order, at any depth, when that
  element and the elements before it are in a layer that is always accessible and pass
  the group test (or grouping is ignored); when this holds of all the elements below
  the context, the result is null only if none of them is focusable. A candidate for
  which no layer information is resolvable passes the layer test: it is classified as
  if layering were ignored, by the group test and the accept condition.
\<close>

theorem acceptElement_layering:
  "(\<not> ignoreLayer \<and> unreachableLayer h e \<longrightarrow>
      acceptElement h w e cond ignoreLayer ig = Some FILTER_REJECT)
   \<and> (getLayerFor h e = None \<longrightarrow>
      acceptElement h w e cond ignoreLayer ig = acceptElement h w e cond True ig)
   \<and> ((\<forall>x \<in> set (childElements (dom h) ctx). unreachableLayer h x) \<longrightarrow>
      F_findFirst h w (Some ctx) ipf False ig = Some None)
   \<and> (descendantsOf (dom h) ctx = pre @ x # rest
        \<and> (\<forall>y \<in> set (pre @ [x]).
              alwaysAccessibleLayer h y \<and> (ig \<or> isInCurrentGroup' h w y True = Some True))
        \<and> (\<forall>y \<in> set pre. \<not> F_isFocusable h y ipf False)
        \<and> F_isFocusable h x ipf False \<longrightarrow>
      F_findFirst h w (Some ctx) ipf False ig = Some (Some x))
   \<and> ((\<forall>y \<in> set (descendantsOf (dom h) ctx).
          alwaysAccessibleLayer h y \<and> (ig \<or> isInCurrentGroup' h w y True = Some True)) \<longrightarrow>
      F_findFirst h w (Some ctx) ipf False ig =
        Some (List.find (\<lambda>y. F_isFocusable h y ipf False) (descendantsOf (dom h) ctx)))"
proof -
  have p1: "\<not> ignoreLayer \<and> unreachableLayer h e \<longrightarrow>
      acceptElement h w e cond ignoreLayer ig = Some FILTER_REJECT"
    by (simp add: acceptElement_def acceptElement_unreachable)
  have p2: "getLayerFor h e = None \<longrightarrow>
      acceptElement h w e cond ignoreLayer ig = acceptElement h w e cond True ig"
    by (simp add: acceptElement_def acceptElement_with_def)
  have p3: "(\<forall>x \<in> set (childElements (dom h) ctx). unreachableLayer h x) \<longrightarrow>
      F_findFirst h w (Some ctx) ipf False ig = Some None"
  proof
    assume a: "\<forall>x \<in> set (childElements (dom h) ctx). unreachableLayer h x"
    show "F_findFirst h w (Some ctx) ipf False ig = Some None"
      unfolding F_findFirst_def findFirst_with_def findElement_with_def
      using a by (simp add: childElements_kidsAt acceptElement_unreachable nextNodeF_all_rejected)
  qed
  have p4: "descendantsOf (dom h) ctx = pre @ x # rest
        \<and> (\<forall>y \<in> set (pre @ [x]).
              alwaysAccessibleLayer h y \<and> (ig \<or> isInCurrentGroup' h w y True = Some True))
        \<and> (\<forall>y \<in> set pre. \<not> F_isFocusable h y ipf False)
        \<and> F_isFocusable h x ipf False \<longrightarrow>
      F_findFirst h w (Some ctx) ipf False ig = Some (Some x)"
    using findFirst_prefix [of h ctx pre x rest ig w ipf] by blast
  have p5: "(\<forall>y \<in> set (descendantsOf (dom h) ctx).
          alwaysAccessibleLayer h y \<and> (ig \<or> isInCurrentGroup' h w y True = Some True)) \<longrightarrow>
      F_findFirst h w (Some ctx) ipf False ig =
        Some (List.find (\<lambda>y. F_isFocusable h y ipf False) (descendantsOf (dom h) ctx))"
    using findFirst_accessible [of h ctx ig w ipf] by blast
  from p1 p2 p3 p4 p5 show ?thesis by blast
qed

text \<open>
  The claim as stated fails: the element \<open>4\<close> has no layer information, and with a
  condition that accepts it the candidate is accepted, not skipped.
\<close>

theorem acceptElement_no_layer_not_skip:
  "getLayerFor (layerHost False) 4 = None
   \<and> acceptElement (layerHost False) emptyWorld 4 (\<lambda>el. True) False True = Some FILTER_ACCEPT"
  by (intro conjI; code_simp)

text \<open>
  Under the layer \<open>modal\<close>, which is not the current layer, \<open>findFirst\<close> returns null
  although the elements \<open>2\<close> and \<open>3\<close> are focusable; when the layer is always accessible
  it returns the element \<open>2\<close>, and in the deeper tree the element \<open>3\<close>, two levels below
  the context.
\<close>

theorem acceptElement_layering_witness:
  "unreachableLayer (layerHost False) 2 \<and> F_isFocusable (layerHost False) 2 False False
   \<and> acceptElement (layerHost False) emptyWorld 2 (\<lambda>el. True) False False = Some FILTER_REJECT
   \<and> acceptElement (layerHost False) emptyWorld 4 (\<lambda>el. True) False False
       = acceptElement (layerHost False) emptyWorld 4 (\<lambda>el. True) True False
   \<and> F_findFirst (layerHost False) emptyWorld (Some 1) False False False = Some None
   \<and> F_findFirst (layerHost True) emptyWorld (Some 1) False False False = Some (Some 2)
   \<and> descendantsOf (dom deepLayerHost) 1 = [2, 3]
   \<and> \<not> F_isFocusable deepLayerHost 2 False False
   \<and> F_findFirst deepLayerHost emptyWorld (Some 1) False False False = Some (Some 3)
   \<and> F_findFirst deepLayerHost emptyWorld (Some 2) False False False
       = Some (List.find (\<lambda>y. F_isFocusable deepLayerHost y False False) [3])"
proof -
  have e: "unreachableLayer (layerHost False) 2" "unreachableLayer (layerHost False) 3"
    "F_isFocusable (layerHost False) 2 False False"
    "getLayerFor (layerHost False) 4 = None"
    "childElements (dom (layerHost False)) 1 = [2, 3]"
    "descendantsOf (dom (layerHost True)) 1 = [] @ 2 # [3]"
    "alwaysAccessibleLayer (layerHost True) 2" "F_isFocusable (layerHost True) 2 False False"
    "isInCurrentGroup' (layerHost True) emptyWorld 2 True = Some True"
    by code_simp+
  have d: "descendantsOf (dom deepLayerHost) 1 = [2] @ 3 # []"
    "descendantsOf (dom deepLayerHost) 2 = [3]"
    "alwaysAccessibleLayer deepLayerHost 2" "alwaysAccessibleLayer deepLayerHost 3"
    "\<not> F_isFocusable deepLayerHost 2 False False" "F_isFocusable deepLayerHost 3 False False"
    "isInCurrentGroup' deepLayerHost emptyWorld 2 True = Some True"
    "isInCurrentGroup' deepLayerHost emptyWorld 3 True = Some True"
    by code_simp+
  from acceptElement_layering [where ignoreLayer = False and h = "layerHost False" and e = 2
      and w = emptyWorld and cond = "\<lambda>el. True" and ig = False and ctx = 1 and ipf = False]
    acceptElement_layering [where ignoreLayer = False and h = "layerHost False" and e = 4
      and w = emptyWorld and cond = "\<lambda>el. True" and ig = False and ctx = 1 and ipf = False]
    e
  have a: "acceptElement (layerHost False) emptyWorld 2 (\<lambda>el. True) False False = Some FILTER_REJECT"
    "acceptElement (layerHost False) emptyWorld 4 (\<lambda>el. True) False False
       = acceptElement (layerHost False) emptyWorld 4 (\<lambda>el. True) True False"
    "F_findFirst (layerHost False) emptyWorld (Some 1) False False False = Some None"
    by simp_all
  from acceptElement_layering [where ignoreLayer = False and h = "layerHost True" and e = 2
      and w = emptyWorld and cond = "\<lambda>el. True" and ig = False and ctx = 1 and ipf = False
      and pre = "[]" and x = 2 and rest = "[3]"]
    e
  have b: "F_findFirst (layerHost True) emptyWorld (Some 1) False False False = Some (Some 2)"
    by simp
  from acceptElement_layering [where ignoreLayer = False and h = deepLayerHost and e = 2
      and w = emptyWorld and cond = "\<lambda>el. True" and ig = False and ctx = 1 and ipf = False
      and pre = "[2]" and x = 3 and rest = "[]"]
    d
  have c: "F_findFirst deepLayerHost emptyWorld (Some 1) False False False = Some (Some 3)"
    by simp
  from acceptElement_layering [where ignoreLayer = False and h = deepLayerHost and e = 2
      and w = emptyWorld and cond = "\<lambda>el. True" and ig = False and ctx = 2 and ipf = False]
    d
  have c': "F_findFirst deepLayerHost emptyWorld (Some 2) False False False
       = Some (List.find (\<lambda>y. F_isFocusable deepLayerHost y False False) [3])"
    by simp
  from a b c c' d(1,5) e(1,3) show ?thesis by simp
qed



section \<open>Reaction to a focus change\<close>

lemma sameGroups_refl [simp]: "sameGroups w w"
  by (simp add: sameGroups_def)


lemma sameGroups_updContainer [simp]: "sameGroups w (updContainer w k f)"
  by (simp add: sameGroups_def updContainer_def)





















































lemma sameView_refl [simp]: "sameView w w"
  by (simp add: sameView_def)



































end
